theory Spec2Isabelle
  imports Main "HOL-Library.Word" "HOL-Library.AList"
begin

section \<open>Chunk transport: session counting (trezorlib/transport/protocol.py)\<close>

type_synonym byte = "8 word"

text \<open>
  The physical layer (class Handle) is an external collaborator.  The calls that
  \<open>Protocol\<close> makes to \<open>handle.open()\<close> and \<open>handle.close()\<close> are recorded, in order,
  in the state.
\<close>

datatype handle_call = Handle_open | Handle_close

record protocol =
  session_counter :: int
  handle_calls :: "handle_call list"

text \<open>\<open>Protocol.__init__\<close>: the counter starts at 0.\<close>

definition protocol_init :: protocol where
  "protocol_init = \<lparr>session_counter = 0, handle_calls = []\<rparr>"

text \<open>
  \<open>begin_session\<close>: \<open>if self.session_counter == 0: self.handle.open()\<close>, then
  \<open>self.session_counter += 1\<close>.
\<close>

definition begin_session :: "protocol \<Rightarrow> protocol" where
  "begin_session p =
     (let p1 = (if session_counter p = 0
                then p\<lparr>handle_calls := handle_calls p @ [Handle_open]\<rparr> else p)
      in p1\<lparr>session_counter := session_counter p1 + 1\<rparr>)"

text \<open>
  \<open>end_session\<close>: \<open>if self.session_counter == 1: self.handle.close()\<close>, then
  \<open>self.session_counter -= 1\<close>.  Nothing guards the counter against going below 0.
\<close>

definition end_session :: "protocol \<Rightarrow> protocol" where
  "end_session p =
     (let p1 = (if session_counter p = 1
                then p\<lparr>handle_calls := handle_calls p @ [Handle_close]\<rparr> else p)
      in p1\<lparr>session_counter := session_counter p1 - 1\<rparr>)"

text \<open>A caller's sequence of session calls, run in order against a protocol object.\<close>

datatype session_call = Begin | End

fun session_step :: "protocol \<Rightarrow> session_call \<Rightarrow> protocol" where
  "session_step p Begin = begin_session p"
| "session_step p End = end_session p"

definition run_session :: "session_call list \<Rightarrow> protocol \<Rightarrow> protocol" where
  "run_session cs p = foldl session_step p cs"

text \<open>
  The nesting depth a sequence of calls asks for, counted from the calls alone
  (independently of the counter the code keeps), and balance: no prefix closes more
  sessions than it opened, and all are closed at the end.
\<close>

definition depth :: "session_call list \<Rightarrow> int" where
  "depth cs = int (count_list cs Begin) - int (count_list cs End)"

fun balanced :: "nat \<Rightarrow> session_call list \<Rightarrow> bool" where
  "balanced d [] = (d = 0)"
| "balanced d (Begin # cs) = balanced (Suc d) cs"
| "balanced d (End # cs) = (0 < d \<and> balanced (d - 1) cs)"

section \<open>Session counting: proofs\<close>

lemma run_session_snoc:
  "run_session (cs @ [c]) p = session_step (run_session cs p) c"
  by (simp add: run_session_def)

lemma depth_snoc:
  "depth (cs @ [c]) = depth cs + (case c of Begin \<Rightarrow> 1 | End \<Rightarrow> - 1)"
  by (cases c) (simp_all add: depth_def)

lemma counter_is_depth:
  "session_counter (run_session cs protocol_init) = depth cs"
proof (induction cs rule: rev_induct)
  case Nil
  show ?case by (simp add: run_session_def protocol_init_def depth_def)
next
  case (snoc c cs)
  show ?case
  proof (cases c)
    case Begin
    with snoc show ?thesis
      by (simp add: run_session_snoc depth_snoc begin_session_def Let_def)
  next
    case End
    with snoc show ?thesis
      by (simp add: run_session_snoc depth_snoc end_session_def Let_def)
  qed
qed

lemma depth_Cons:
  "depth (c # cs) = (case c of Begin \<Rightarrow> 1 | End \<Rightarrow> - 1) + depth cs"
  by (cases c) (simp_all add: depth_def)

lemma balanced_prefix_nonneg:
  "balanced d cs \<Longrightarrow> 0 \<le> int d + depth (take n cs)"
proof (induction d cs arbitrary: n rule: balanced.induct)
  case (1 d)
  show ?case by (simp add: depth_def)
next
  case (2 d cs)
  show ?case
  proof (cases n)
    case 0
    then show ?thesis by (simp add: depth_def)
  next
    case (Suc m)
    from 2 have "0 \<le> int (Suc d) + depth (take m cs)" by simp
    with Suc show ?thesis by (simp add: depth_Cons)
  qed
next
  case (3 d cs)
  show ?case
  proof (cases n)
    case 0
    then show ?thesis by (simp add: depth_def)
  next
    case (Suc m)
    from 3 have "0 < d" and "0 \<le> int (d - 1) + depth (take m cs)" by simp_all
    with Suc show ?thesis by (simp add: depth_Cons)
  qed
qed

lemma balanced_total: "balanced d cs \<Longrightarrow> int d + depth cs = 0"
proof (induction d cs rule: balanced.induct)
  case (1 d)
  then show ?case by (simp add: depth_def)
next
  case (2 d cs)
  then show ?case by (simp add: depth_Cons)
next
  case (3 d cs)
  then show ?case by (simp add: depth_Cons of_nat_diff)
qed

lemma handle_calls_step:
  assumes "n < length cs"
  shows "handle_calls (run_session (take (Suc n) cs) protocol_init) =
         handle_calls (run_session (take n cs) protocol_init) @
           (if cs ! n = Begin \<and> depth (take n cs) = 0 then [Handle_open]
            else if cs ! n = End \<and> depth (take n cs) = 1 then [Handle_close]
            else [])"
proof -
  have split: "take (Suc n) cs = take n cs @ [cs ! n]"
    using assms by (simp add: take_Suc_conv_app_nth)
  have cnt: "session_counter (run_session (take n cs) protocol_init) = depth (take n cs)"
    by (rule counter_is_depth)
  show ?thesis
  proof (cases "cs ! n")
    case Begin
    with cnt show ?thesis
      by (simp add: split run_session_snoc begin_session_def Let_def)
  next
    case End
    with cnt show ?thesis
      by (simp add: split run_session_snoc end_session_def Let_def)
  qed
qed

text \<open>
  C7.  For every balanced sequence of \<open>begin_session\<close>/\<open>end_session\<close> calls on a fresh
  protocol object: after every prefix the counter equals the nesting depth and is not
  negative; each call appends \<open>open\<close> to the handle's calls exactly when it is a begin at
  depth 0, \<open>close\<close> exactly when it is an end at depth 1, and nothing otherwise; the
  counter ends at 0; and begin, begin, end, end calls the handle's open once and then its
  close once.
\<close>

theorem session_open_close_at_boundaries:
  assumes "balanced 0 cs"
  shows "(\<forall>n \<le> length cs.
            session_counter (run_session (take n cs) protocol_init) = depth (take n cs)
          \<and> 0 \<le> session_counter (run_session (take n cs) protocol_init))
       \<and> (\<forall>n < length cs.
            handle_calls (run_session (take (Suc n) cs) protocol_init) =
            handle_calls (run_session (take n cs) protocol_init) @
              (if cs ! n = Begin \<and> depth (take n cs) = 0 then [Handle_open]
               else if cs ! n = End \<and> depth (take n cs) = 1 then [Handle_close]
               else []))
       \<and> session_counter (run_session cs protocol_init) = 0
       \<and> run_session [Begin, Begin, End, End] protocol_init =
           \<lparr>session_counter = 0, handle_calls = [Handle_open, Handle_close]\<rparr>"
proof (intro conjI allI impI)
  fix n
  show "session_counter (run_session (take n cs) protocol_init) = depth (take n cs)"
    by (rule counter_is_depth)
  from balanced_prefix_nonneg [OF assms, of n]
  show "0 \<le> session_counter (run_session (take n cs) protocol_init)"
    by (simp add: counter_is_depth)
next
  fix n assume "n < length cs"
  then show "handle_calls (run_session (take (Suc n) cs) protocol_init) =
            handle_calls (run_session (take n cs) protocol_init) @
              (if cs ! n = Begin \<and> depth (take n cs) = 0 then [Handle_open]
               else if cs ! n = End \<and> depth (take n cs) = 1 then [Handle_close]
               else [])"
    by (rule handle_calls_step)
next
  from balanced_total [OF assms]
  show "session_counter (run_session cs protocol_init) = 0"
    by (simp add: counter_is_depth)
next
  show "run_session [Begin, Begin, End, End] protocol_init =
           \<lparr>session_counter = 0, handle_calls = [Handle_open, Handle_close]\<rparr>"
    by (simp add: run_session_def protocol_init_def begin_session_def end_session_def)
qed

theorem session_open_close_at_boundaries_witness:
  "balanced 0 [Begin, Begin, End, End]
   \<and> session_counter (run_session [Begin, Begin, End, End] protocol_init) = 0
   \<and> handle_calls (run_session (take 1 [Begin, Begin, End, End]) protocol_init) = [Handle_open]
   \<and> handle_calls (run_session (take 4 [Begin, Begin, End, End]) protocol_init) =
       handle_calls (run_session (take 3 [Begin, Begin, End, End]) protocol_init) @ [Handle_close]"
proof -
  have b: "balanced 0 [Begin, Begin, End, End]" by simp
  note t = session_open_close_at_boundaries [OF b]
  from t have c: "session_counter (run_session [Begin, Begin, End, End] protocol_init) = 0"
    by blast
  from t have s: "\<forall>n < length [Begin, Begin, End, End].
            handle_calls (run_session (take (Suc n) [Begin, Begin, End, End]) protocol_init) =
            handle_calls (run_session (take n [Begin, Begin, End, End]) protocol_init) @
              (if [Begin, Begin, End, End] ! n = Begin \<and> depth (take n [Begin, Begin, End, End]) = 0
               then [Handle_open]
               else if [Begin, Begin, End, End] ! n = End \<and> depth (take n [Begin, Begin, End, End]) = 1
               then [Handle_close] else [])"
    by blast
  from s [rule_format, of 0]
  have o: "handle_calls (run_session (take 1 [Begin, Begin, End, End]) protocol_init) = [Handle_open]"
    by (simp add: depth_def run_session_def protocol_init_def)
  from s [rule_format, of 3]
  have k: "handle_calls (run_session (take 4 [Begin, Begin, End, End]) protocol_init) =
       handle_calls (run_session (take 3 [Begin, Begin, End, End]) protocol_init) @ [Handle_close]"
    by (simp add: depth_def numeral_3_eq_3)
  from b c o k show ?thesis by blast
qed

section \<open>Chunk transport: ProtocolV1 framing (trezorlib/transport/protocol.py)\<close>

datatype protocol_error =
    RuntimeError string
  | Struct_error
  | Handle_read_error

definition REPLEN :: nat where
  "REPLEN = 64"

text \<open>
  \<open>struct.pack(">HL", t, n)\<close>: an unsigned 16-bit and an unsigned 32-bit integer, big
  endian, 6 bytes; \<open>struct.error\<close> when a value does not fit.  \<open>struct.unpack(">HL", b)\<close>
  wants exactly 6 bytes.
\<close>

definition be_value :: "byte list \<Rightarrow> nat" where
  "be_value bs = foldl (\<lambda>a b. a * 256 + unat b) 0 bs"

definition struct_pack_HL :: "int \<Rightarrow> nat \<Rightarrow> protocol_error + byte list" where
  "struct_pack_HL t n =
     (if 0 \<le> t \<and> t < 65536 \<and> n < 4294967296
      then Inr [of_nat (nat t div 256), of_nat (nat t),
                of_nat (n div 16777216), of_nat (n div 65536), of_nat (n div 256), of_nat n]
      else Inl Struct_error)"

definition struct_unpack_HL :: "byte list \<Rightarrow> protocol_error + (int \<times> nat)" where
  "struct_unpack_HL b =
     (if length b = 6 then Inr (int (be_value (take 2 b)), be_value (drop 2 b))
      else Inl Struct_error)"

text \<open>\<open>bytes.ljust(width, fill)\<close>: pads on the right, never truncates.\<close>

definition ljust :: "nat \<Rightarrow> byte \<Rightarrow> byte list \<Rightarrow> byte list" where
  "ljust width fill b = b @ replicate (width - length b) fill"

text \<open>
  The loop of \<open>ProtocolV1.write\<close>:
  \<^verbatim>\<open>
  while buffer:
      chunk = b"?" + buffer[: REPLEN - 1]
      chunk = chunk.ljust(REPLEN, b"\x00")
      self.handle.write_chunk(chunk)
      buffer = buffer[63:]
  \<close>
  The result is the list of chunks given to \<open>handle.write_chunk\<close>, in order.
\<close>

function write_loop :: "byte list \<Rightarrow> byte list list" where
  "write_loop buffer =
     (if buffer = [] then []
      else ljust REPLEN 0 (0x3F # take (REPLEN - 1) buffer) # write_loop (drop 63 buffer))"
  by pat_completeness auto
termination
  by (relation "measure length") auto

text \<open>
  \<open>ProtocolV1.write\<close>.  The serialised message \<open>ser\<close> (\<open>protobuf.dump_message\<close>) and its
  wire type \<open>msg_type\<close> (\<open>mapping.get_type\<close>) come from modules outside this file and are
  taken as arguments.
\<close>

definition ProtocolV1_write :: "int \<Rightarrow> byte list \<Rightarrow> protocol_error + byte list list" where
  "ProtocolV1_write msg_type ser =
     (case struct_pack_HL msg_type (length ser) of
        Inl e \<Rightarrow> Inl e
      | Inr header \<Rightarrow> Inr (write_loop ([0x23, 0x23] @ header @ ser)))"

text \<open>
  Reading: the handle is the list of chunks the physical link will still deliver;
  \<open>handle.read_chunk()\<close> takes the first one.  With nothing left to deliver the link does
  not return a chunk, which is the error \<open>Handle_read_error\<close> here.
\<close>

definition read_chunk :: "byte list list \<Rightarrow> protocol_error + (byte list \<times> byte list list)" where
  "read_chunk h = (case h of [] \<Rightarrow> Inl Handle_read_error | c # h' \<Rightarrow> Inr (c, h'))"

definition read_first ::
  "byte list list \<Rightarrow> protocol_error + ((int \<times> nat \<times> byte list) \<times> byte list list)" where
  "read_first h =
     (case read_chunk h of
        Inl e \<Rightarrow> Inl e
      | Inr (chunk, h') \<Rightarrow>
          if take 3 chunk \<noteq> [0x3F, 0x23, 0x23]
          then Inl (RuntimeError ''Unexpected magic characters'')
          else (case struct_unpack_HL (take 6 (drop 3 chunk)) of
                  Inl e \<Rightarrow> Inl (RuntimeError ''Cannot parse header'')
                | Inr (msg_type, datalen) \<Rightarrow> Inr ((msg_type, datalen, drop (3 + 6) chunk), h')))"

definition read_next :: "byte list list \<Rightarrow> protocol_error + (byte list \<times> byte list list)" where
  "read_next h =
     (case read_chunk h of
        Inl e \<Rightarrow> Inl e
      | Inr (chunk, h') \<Rightarrow>
          if take 1 chunk \<noteq> [0x3F]
          then Inl (RuntimeError ''Unexpected magic characters'')
          else Inr (drop 1 chunk, h'))"

lemma read_next_shorter: "read_next h = Inr (d, h') \<Longrightarrow> length h' < length h"
  by (auto simp: read_next_def read_chunk_def split: list.splits if_splits)

text \<open>
  \<open>while len(buffer) < datalen: buffer.extend(self.read_next())\<close>.  Every round takes
  one chunk from the handle, so the loop ends on every finite supply of chunks.
\<close>

function read_loop ::
  "nat \<Rightarrow> byte list \<Rightarrow> byte list list \<Rightarrow> protocol_error + (byte list \<times> byte list list)" where
  "read_loop datalen buffer h =
     (if length buffer < datalen
      then (case read_next h of
              Inl e \<Rightarrow> Inl e
            | Inr (d, h') \<Rightarrow> read_loop datalen (buffer @ d) h')
      else Inr (buffer, h))"
  by pat_completeness auto
termination
  by (relation "measure (\<lambda>(datalen, buffer, h). length h)") (auto dest: read_next_shorter)

text \<open>
  \<open>ProtocolV1.read\<close>, up to the bytes handed to \<open>protobuf.load_message\<close>: the type tag,
  the payload \<open>buffer[:datalen]\<close>, and the chunks left on the handle.
\<close>

definition ProtocolV1_read :: "byte list list \<Rightarrow> protocol_error + ((int \<times> byte list) \<times> byte list list)" where
  "ProtocolV1_read h =
     (case read_first h of
        Inl e \<Rightarrow> Inl e
      | Inr ((msg_type, datalen, first_chunk), h1) \<Rightarrow>
          (case read_loop datalen first_chunk h1 of
             Inl e \<Rightarrow> Inl e
           | Inr (buffer, h2) \<Rightarrow> Inr ((msg_type, take datalen buffer), h2)))"

section \<open>ProtocolV1 framing: proofs\<close>

declare write_loop.simps [simp del]
declare read_loop.simps [simp del]

lemma write_loop_Nil: "write_loop [] = []"
  by (simp add: write_loop.simps)

lemma write_loop_nonempty:
  "b \<noteq> [] \<Longrightarrow> write_loop b = ljust REPLEN 0 (0x3F # take (REPLEN - 1) b) # write_loop (drop 63 b)"
  by (subst write_loop.simps) simp

lemma write_loop_length: "length (write_loop b) = (length b + 62) div 63"
proof (induction b rule: write_loop.induct)
  case (1 buffer)
  show ?case
  proof (cases "buffer = []")
    case True
    then show ?thesis by (simp add: write_loop_Nil)
  next
    case False
    then have pos: "0 < length buffer" by simp
    have "(length buffer + 62) div 63 = Suc ((length buffer - 63 + 62) div 63)"
    proof (cases "63 \<le> length buffer")
      case True
      then have "length buffer + 62 = (length buffer - 63 + 62) + 63" by simp
      then show ?thesis by (simp only: div_add_self2)
    next
      case False
      with pos have "length buffer + 62 = 63 + (length buffer - 1)" and "length buffer - 1 < 63"
        by simp_all
      then show ?thesis by (simp only: div_add_self1)
    qed
    with 1 False show ?thesis
      by (simp add: write_loop_nonempty)
  qed
qed

lemma write_loop_chunk_length: "c \<in> set (write_loop b) \<Longrightarrow> length c = REPLEN"
proof (induction b rule: write_loop.induct)
  case (1 buffer)
  show ?case
  proof (cases "buffer = []")
    case True
    with 1 show ?thesis by (simp add: write_loop_Nil)
  next
    case False
    with 1 show ?thesis
      by (auto simp: write_loop_nonempty ljust_def REPLEN_def)
  qed
qed


lemma write_loop_hd: "c \<in> set (write_loop b) \<Longrightarrow> hd c = 0x3F"
proof (induction b rule: write_loop.induct)
  case (1 buffer)
  show ?case
  proof (cases "buffer = []")
    case True
    with 1 show ?thesis by (simp add: write_loop_Nil)
  next
    case False
    with 1 show ?thesis
      by (auto simp: write_loop_nonempty ljust_def)
  qed
qed

lemma write_loop_last:
  "b \<noteq> [] \<Longrightarrow>
   last (write_loop b) =
     (0x3F # drop (63 * (length (write_loop b) - 1)) b)
       @ replicate (63 * length (write_loop b) - length b) 0"
proof (induction b rule: write_loop.induct)
  case (1 buffer)
  note ne = \<open>buffer \<noteq> []\<close>
  show ?case
  proof (cases "drop 63 buffer = []")
    case True
    then have short: "length buffer \<le> 63" by simp
    from ne True have wl: "write_loop buffer = [ljust REPLEN 0 (0x3F # take (REPLEN - 1) buffer)]"
      by (simp add: write_loop_nonempty write_loop_Nil)
    from short show ?thesis
      by (simp add: wl ljust_def REPLEN_def)
  next
    case False
    then have long: "63 < length buffer" by simp
    let ?r = "drop 63 buffer"
    have wl: "write_loop buffer = ljust REPLEN 0 (0x3F # take (REPLEN - 1) buffer) # write_loop ?r"
      using ne by (rule write_loop_nonempty)
    have rne: "write_loop ?r \<noteq> []"
      using False by (simp add: write_loop_nonempty)
    then have pos: "0 < length (write_loop ?r)" by simp
    have ih: "last (write_loop ?r) =
        (0x3F # drop (63 * (length (write_loop ?r) - 1)) ?r)
          @ replicate (63 * length (write_loop ?r) - length ?r) 0"
      using 1 ne False by simp
    have d: "drop (63 * (length (write_loop ?r) - 1)) ?r = drop (63 * length (write_loop ?r)) buffer"
    proof -
      from pos have "63 * (length (write_loop ?r) - 1) + 63 = 63 * length (write_loop ?r)"
        by (cases "length (write_loop ?r)") simp_all
      then show ?thesis by (simp add: add.commute)
    qed
    have p: "63 * length (write_loop ?r) - length ?r = 63 * Suc (length (write_loop ?r)) - length buffer"
      using long by simp
    have len: "length (write_loop buffer) = Suc (length (write_loop ?r))"
      by (simp add: wl)
    have lst: "last (write_loop buffer) = last (write_loop ?r)"
      using rne by (simp add: wl)
    show ?thesis
      unfolding lst len ih d p by simp
  qed
qed

lemma read_next_Cons:
  "read_next ((0x3F # d) # h) = Inr (d, h)"
  by (simp add: read_next_def read_chunk_def)

lemma read_loop_done: "\<not> length buffer < L \<Longrightarrow> read_loop L buffer h = Inr (buffer, h)"
  by (subst read_loop.simps) simp

lemma read_loop_more:
  "length buffer < L \<Longrightarrow> read_loop L buffer ((0x3F # d) # h) = read_loop L (buffer @ d) h"
  by (subst read_loop.simps) (simp add: read_next_Cons)

lemma read_loop_write_loop:
  "length acc + length rest = L \<Longrightarrow>
   \<exists>pad. read_loop L acc (write_loop rest @ later) = Inr (acc @ rest @ pad, later)"
proof (induction rest arbitrary: acc rule: write_loop.induct)
  case (1 buffer)
  show ?case
  proof (cases "buffer = []")
    case True
    with 1(2) show ?thesis
      by (simp add: write_loop_Nil read_loop_done)
  next
    case False
    with 1(2) have less: "length acc < L" by (cases buffer) auto
    have wl: "write_loop buffer @ later =
        (0x3F # take 63 buffer @ replicate (63 - length (take 63 buffer)) 0)
          # (write_loop (drop 63 buffer) @ later)"
      using False by (simp add: write_loop_nonempty ljust_def REPLEN_def)
    have step: "read_loop L acc (write_loop buffer @ later) =
        read_loop L (acc @ take 63 buffer @ replicate (63 - length (take 63 buffer)) 0)
          (write_loop (drop 63 buffer) @ later)"
      unfolding wl using less by (rule read_loop_more)
    show ?thesis
    proof (cases "length buffer \<le> 63")
      case True
      with 1(2) have "\<not> length (acc @ take 63 buffer @ replicate (63 - length (take 63 buffer)) 0) < L"
        by simp
      then have "read_loop L (acc @ take 63 buffer @ replicate (63 - length (take 63 buffer)) 0) later =
          Inr (acc @ take 63 buffer @ replicate (63 - length (take 63 buffer)) 0, later)"
        by (rule read_loop_done)
      with True show ?thesis
        by (simp add: step write_loop_Nil)
    next
      case False2: False
      then have full: "length (take 63 buffer) = 63" by simp
      from 1(2) False2 have "length (acc @ take 63 buffer) + length (drop 63 buffer) = L"
        by simp
      from 1(1) [OF False this]
      obtain pad where "read_loop L (acc @ take 63 buffer) (write_loop (drop 63 buffer) @ later) =
          Inr ((acc @ take 63 buffer) @ drop 63 buffer @ pad, later)"
        by blast
      moreover have "replicate (63 - length (take 63 buffer)) (0::byte) = []"
        using full by simp
      ultimately show ?thesis
        unfolding step by (intro exI [of _ pad]) simp
    qed
  qed
qed

lemma unat_byte: "unat (of_nat n :: byte) = n mod 256"
  by (simp add: unat_of_nat)

lemma base256_recompose:
  fixes v :: nat
  assumes "v = 256 * A + r0" "A = 256 * B + r1" "B = 256 * C + r2"
  shows "16777216 * C + 65536 * r2 + r1 * 256 + r0 = v"
  using assms by simp

lemma be_value_2: "v < 65536 \<Longrightarrow> be_value [of_nat (v div 256), of_nat v :: byte] = v"
  by (simp add: be_value_def unat_byte)

lemma be_value_4:
  assumes "v < 4294967296"
  shows "be_value [of_nat (v div 16777216), of_nat (v div 65536), of_nat (v div 256), of_nat v :: byte] = v"
proof -
  have d2: "v div 65536 = v div 256 div 256"
    by (simp add: div_mult2_eq [symmetric])
  have d3: "v div 16777216 = v div 65536 div 256"
    by (simp add: div_mult2_eq [symmetric])
  have e0: "v = 256 * (v div 256) + v mod 256" by simp
  have e1: "v div 256 = 256 * (v div 65536) + v div 256 mod 256"
    unfolding d2 by simp
  have e2: "v div 65536 = 256 * (v div 16777216) + v div 65536 mod 256"
    unfolding d3 by simp
  have small: "v div 16777216 < 256"
    using assms by (simp add: less_mult_imp_div_less)
  have "16777216 * (v div 16777216) + 65536 * (v div 65536 mod 256) +
        v div 256 mod 256 * 256 + v mod 256 = v"
    by (rule base256_recompose [OF e0 e1 e2])
  with small show ?thesis
    by (simp add: be_value_def unat_byte)
qed

lemma struct_unpack_pack:
  assumes "0 \<le> t" "t < 65536" "n < 4294967296"
  shows "\<exists>h0 h1 h2 h3 h4 h5. struct_pack_HL t n = Inr [h0, h1, h2, h3, h4, h5]
           \<and> struct_unpack_HL [h0, h1, h2, h3, h4, h5] = Inr (t, n)"
proof -
  from assms have "nat t < 65536" by simp
  then have "be_value [of_nat (nat t div 256), of_nat (nat t) :: byte] = nat t"
    by (rule be_value_2)
  moreover have "be_value [of_nat (n div 16777216), of_nat (n div 65536), of_nat (n div 256), of_nat n :: byte] = n"
    using assms(3) by (rule be_value_4)
  ultimately show ?thesis
    using assms by (simp add: struct_pack_HL_def struct_unpack_HL_def)
qed

lemma read_first_frame:
  assumes "struct_unpack_HL [h0, h1, h2, h3, h4, h5] = Inr (t, n)"
  shows "read_first ((0x3F # 0x23 # 0x23 # h0 # h1 # h2 # h3 # h4 # h5 # d) # h) = Inr ((t, n, d), h)"
  using assms by (simp add: read_first_def read_chunk_def)

lemma write_read_frames:
  assumes "struct_unpack_HL [h0, h1, h2, h3, h4, h5] = Inr (t, length ser)"
  shows "ProtocolV1_read (write_loop ([0x23, 0x23] @ [h0, h1, h2, h3, h4, h5] @ ser) @ later)
         = Inr ((t, ser), later)"
proof -
  let ?B = "[0x23, 0x23] @ [h0, h1, h2, h3, h4, h5] @ ser"
  let ?pad0 = "replicate (55 - length (take 55 ser)) (0::byte)"
  have wl: "write_loop ?B @ later =
      (0x3F # 0x23 # 0x23 # h0 # h1 # h2 # h3 # h4 # h5 # (take 55 ser @ ?pad0))
        # (write_loop (drop 55 ser) @ later)"
    by (simp add: write_loop_nonempty ljust_def REPLEN_def)
  have rf: "read_first (write_loop ?B @ later) =
      Inr ((t, length ser, take 55 ser @ ?pad0), write_loop (drop 55 ser) @ later)"
    unfolding wl using assms by (rule read_first_frame)
  have "\<exists>pad. read_loop (length ser) (take 55 ser @ ?pad0) (write_loop (drop 55 ser) @ later)
          = Inr (ser @ pad, later)"
  proof (cases "length ser \<le> 55")
    case True
    then have "\<not> length (take 55 ser @ ?pad0) < length ser" by simp
    then have "read_loop (length ser) (take 55 ser @ ?pad0) later = Inr (take 55 ser @ ?pad0, later)"
      by (rule read_loop_done)
    with True show ?thesis
      by (simp add: write_loop_Nil)
  next
    case False
    then have z: "?pad0 = []" by simp
    have "length (take 55 ser) + length (drop 55 ser) = length ser" by simp
    from read_loop_write_loop [OF this, of later]
    obtain pad where p: "read_loop (length ser) (take 55 ser) (write_loop (drop 55 ser) @ later) =
        Inr (take 55 ser @ drop 55 ser @ pad, later)"
      by blast
    have e: "take 55 ser @ drop 55 ser @ pad = ser @ pad"
      by (simp flip: append_assoc)
    show ?thesis
      unfolding z append_Nil2 p e by blast
  qed
  then obtain pad where
    "read_loop (length ser) (take 55 ser @ ?pad0) (write_loop (drop 55 ser) @ later) = Inr (ser @ pad, later)"
    by blast
  then show ?thesis
    unfolding ProtocolV1_read_def rf by simp
qed


text \<open>
  The block count as the specification words it: a first block with room for
  \<open>N - 3\<close> payload bytes and continuation blocks with room for \<open>N - 1\<close>.
\<close>

definition claimed_block_count :: "nat \<Rightarrow> nat" where
  "claimed_block_count n =
     (if n \<le> REPLEN - 3 then 1
      else 1 + (n - (REPLEN - 3) + (REPLEN - 2)) div (REPLEN - 1))"

lemma block_count_arith:
  "(n + 8 + 62) div 63 = (if n \<le> 55 then 1 else 1 + (n - 55 + 62) div (63::nat))"
proof (cases "n \<le> 55")
  case True
  then have "n + 8 + 62 = 63 + (n + 7)" and "n + 7 < 63" by simp_all
  then have "(n + 8 + 62) div 63 = 1" by (simp only: div_add_self1)
  with True show ?thesis by simp
next
  case False
  then have "n + 8 + 62 = 63 + (n - 55 + 62)" by simp
  then have "(n + 8 + 62) div 63 = 1 + (n - 55 + 62) div 63" by (simp only: div_add_self1)
  with False show ?thesis by simp
qed

text \<open>
  C3 (amended).  For a type tag that fits 16 bits and a payload of \<open>L < 2^32\<close> bytes,
  \<open>ProtocolV1.write\<close> writes \<open>ceil((L + 8) / (N - 1))\<close> blocks, \<open>N = 64\<close>: the two
  \<open>#\<close> bytes and the 6 header bytes travel in the first block with the payload, so the
  first block has room for \<open>N - 9 = 55\<close> payload bytes and every continuation block for
  \<open>N - 1 = 63\<close>.  Every block is exactly \<open>N\<close> bytes and starts with \<open>?\<close>; the last
  block is the rest of the framed message followed by zero bytes up to \<open>N\<close>.
\<close>

theorem write_block_count:
  assumes "0 \<le> t" "t < 65536" "length ser < 4294967296"
  shows "\<exists>header chunks.
           struct_pack_HL t (length ser) = Inr header \<and> length header = 6
         \<and> ProtocolV1_write t ser = Inr chunks
         \<and> length chunks = (length ser + 8 + (REPLEN - 2)) div (REPLEN - 1)
         \<and> length chunks =
             (if length ser \<le> REPLEN - 9 then 1
              else 1 + (length ser - (REPLEN - 9) + (REPLEN - 2)) div (REPLEN - 1))
         \<and> (\<forall>c \<in> set chunks. length c = REPLEN \<and> hd c = 0x3F)
         \<and> last chunks =
             (0x3F # drop ((REPLEN - 1) * (length chunks - 1)) ([0x23, 0x23] @ header @ ser))
               @ replicate ((REPLEN - 1) * length chunks - (length ser + 8)) 0"
proof -
  from struct_unpack_pack [OF assms]
  obtain h0 h1 h2 h3 h4 h5 where
    pk: "struct_pack_HL t (length ser) = Inr [h0, h1, h2, h3, h4, h5]"
    by blast
  let ?header = "[h0, h1, h2, h3, h4, h5]"
  let ?B = "[0x23, 0x23] @ ?header @ ser"
  have lenB: "length ?B = length ser + 8" by simp
  have w: "ProtocolV1_write t ser = Inr (write_loop ?B)"
    by (simp add: ProtocolV1_write_def pk)
  have n1: "length (write_loop ?B) = (length ser + 8 + (REPLEN - 2)) div (REPLEN - 1)"
    unfolding write_loop_length lenB by (simp add: REPLEN_def)
  have n2: "length (write_loop ?B) =
      (if length ser \<le> REPLEN - 9 then 1
       else 1 + (length ser - (REPLEN - 9) + (REPLEN - 2)) div (REPLEN - 1))"
    unfolding write_loop_length lenB using block_count_arith [of "length ser"]
    by (simp add: REPLEN_def)
  have each: "\<forall>c \<in> set (write_loop ?B). length c = REPLEN \<and> hd c = 0x3F"
    using write_loop_chunk_length write_loop_hd by blast
  have "?B \<noteq> []" by simp
  from write_loop_last [OF this]
  have lst: "last (write_loop ?B) =
      (0x3F # drop ((REPLEN - 1) * (length (write_loop ?B) - 1)) ?B)
        @ replicate ((REPLEN - 1) * length (write_loop ?B) - (length ser + 8)) 0"
    unfolding lenB by (simp add: REPLEN_def)
  have "length ?header = 6" by simp
  with pk w n1 n2 each lst show ?thesis by blast
qed

theorem write_block_count_witness:
  "length (projr (ProtocolV1_write 7 (replicate 61 0))) = 2
   \<and> length (projr (ProtocolV1_write 7 (replicate 55 0))) = 1"
proof -
  have a: "(0::int) \<le> 7" and b: "(7::int) < 65536" by simp_all
  have c: "length (replicate 61 (0::byte)) < 4294967296" by simp
  have d: "length (replicate 55 (0::byte)) < 4294967296" by simp
  from write_block_count [OF a b c]
  obtain chunks where "ProtocolV1_write 7 (replicate 61 0) = Inr chunks"
    and "length chunks = (length (replicate 61 (0::byte)) + 8 + (REPLEN - 2)) div (REPLEN - 1)"
    by blast
  then have one: "length (projr (ProtocolV1_write 7 (replicate 61 0))) = 2"
    by (simp add: REPLEN_def)
  from write_block_count [OF a b d]
  obtain chunks' where "ProtocolV1_write 7 (replicate 55 0) = Inr chunks'"
    and "length chunks' = (length (replicate 55 (0::byte)) + 8 + (REPLEN - 2)) div (REPLEN - 1)"
    by blast
  then have two: "length (projr (ProtocolV1_write 7 (replicate 55 0))) = 1"
    by (simp add: REPLEN_def)
  from one two show ?thesis by blast
qed

text \<open>
  C3 as stated, with a first-block payload capacity of \<open>N - 3 = 61\<close> bytes, fails: a
  payload of 61 bytes is written as two blocks, not one.
\<close>

theorem claimed_block_count_counterexample:
  "map_sum id length (ProtocolV1_write 0 (replicate 61 0)) = Inr 2
   \<and> claimed_block_count (length (replicate 61 (0::byte))) = 1"
proof -
  have "\<exists>h. struct_pack_HL 0 61 = Inr h \<and> length h = 6"
    by (simp add: struct_pack_HL_def)
  then obtain h where h: "struct_pack_HL 0 61 = Inr h" and l: "length h = 6" by blast
  have "length (write_loop ([0x23, 0x23] @ h @ replicate 61 0)) = 2"
    unfolding write_loop_length using l by simp
  with h have "map_sum id length (ProtocolV1_write 0 (replicate 61 0)) = Inr 2"
    by (simp add: ProtocolV1_write_def)
  moreover have "claimed_block_count (length (replicate 61 (0::byte))) = 1"
    by (simp add: claimed_block_count_def REPLEN_def)
  ultimately show ?thesis by blast
qed

text \<open>
  C4.  For every type tag in \<open>0..65535\<close> and every payload shorter than \<open>2^32\<close> bytes,
  the chunks written by \<open>ProtocolV1.write\<close>, read back by \<open>ProtocolV1.read\<close>
  (\<open>read_first\<close>, then \<open>read_next\<close> until the declared length is reached, padding cut
  off), give the same type tag and the same payload, and the reader takes exactly the
  chunks of that message from the handle.
\<close>

theorem write_read_roundtrip:
  assumes "0 \<le> t" "t < 65536" "length ser < 4294967296"
  shows "\<exists>chunks. ProtocolV1_write t ser = Inr chunks
           \<and> ProtocolV1_read (chunks @ later) = Inr ((t, ser), later)"
proof -
  from struct_unpack_pack [OF assms]
  obtain h0 h1 h2 h3 h4 h5 where
    pk: "struct_pack_HL t (length ser) = Inr [h0, h1, h2, h3, h4, h5]" and
    un: "struct_unpack_HL [h0, h1, h2, h3, h4, h5] = Inr (t, length ser)"
    by blast
  have "ProtocolV1_write t ser = Inr (write_loop ([0x23, 0x23] @ [h0, h1, h2, h3, h4, h5] @ ser))"
    by (simp add: ProtocolV1_write_def pk)
  with write_read_frames [OF un, of later] show ?thesis by blast
qed

theorem write_read_roundtrip_witness:
  "ProtocolV1_read (projr (ProtocolV1_write 513 [])) = Inr ((513, []), [])
   \<and> ProtocolV1_read (projr (ProtocolV1_write 65535 (replicate 200 7))) =
       Inr ((65535, replicate 200 7), [])"
proof -
  have e: "length ([] :: byte list) < 4294967296" by simp
  have "(0::int) \<le> 513" and "(513::int) < 65536" by simp_all
  from write_read_roundtrip [OF this e, of "[]"]
  have one: "ProtocolV1_read (projr (ProtocolV1_write 513 [])) = Inr ((513, []), [])"
    by auto
  have f: "length (replicate 200 (7::byte)) < 4294967296" by simp
  have "(0::int) \<le> 65535" and "(65535::int) < 65536" by simp_all
  from write_read_roundtrip [OF this f, of "[]"]
  have two: "ProtocolV1_read (projr (ProtocolV1_write 65535 (replicate 200 7))) =
       Inr ((65535, replicate 200 7), [])"
    by auto
  from one two show ?thesis by blast
qed


section \<open>BitBox02 client: data (devices/bitbox02.py)\<close>

type_synonym bytes = "byte list"

text \<open>
  The exceptions that leave the functions embedded below.  A \<open>BadArgumentError\<close> carries
  which of the messages of \<open>sign_tx\<close> it was raised with, and the index or value the
  message is formatted with.
\<close>

datatype bad_argument =
    Sighash_not_all int
  | Wrong_prevtx_hash nat
  | No_utxo_found nat
  | Previous_transaction_missing nat
  | No_key_found nat
  | Account_index_differs
  | Legacy_p2pkh_script
  | Input_script_not_recognized nat
  | Output_type_not_recognized nat
  | Invalid_input

datatype error =
    BadArgumentError bad_argument
  | ValueError
  | KeypathError bool
  | IndexError
  | NameError
  | UnboundLocalError
  | AssertionError
  | ActionCanceledError
  | DeviceNotReadyError
  | UserAbortException
  | Bitbox02Exception int
  | FirmwareVersionOutdatedException

text \<open>
  Modelled from the spec: \<open>HARDENED\<close> is imported from the vendor library
  \<open>bitbox02.communication\<close>; a hardened index has the high bit of 32 set.
\<close>

definition HARDENED :: int where
  "HARDENED = 2147483648"

definition ERR_INVALID_INPUT :: int where
  "ERR_INVALID_INPUT = 101"





subsection \<open>Public key export\<close>

datatype BTCCoin = BTC | TBTC







subsection \<open>Transactions and PSBTs as \<open>sign_tx\<close> reads them\<close>

text \<open>
  The classes of \<open>..serializations\<close> are outside this file; the records have the fields
  \<open>sign_tx\<close> reads.  \<open>hd_keypaths\<close> is a dictionary from public key to fingerprint
  followed by path, kept as a list because \<open>find_our_key\<close> depends on its iteration order.
\<close>

record COutPoint =
  prevout_hash :: int
  prevout_n :: nat

record CTxIn =
  prevout :: COutPoint
  scriptSig :: bytes
  nSequence :: nat

record CTxOut =
  nValue :: int
  scriptPubKey :: bytes

record CTransaction =
  nVersion :: int
  vin :: "CTxIn list"
  vout :: "CTxOut list"
  nLockTime :: nat
  sha256 :: int

record PartiallySignedInput =
  non_witness_utxo :: "CTransaction option"
  witness_utxo :: "CTxOut option"
  sighash :: "int option"
  redeem_script :: bytes
  hd_keypaths :: "(bytes \<times> int list) list"
  partial_sigs :: "(bytes \<times> bytes) list"

record PartiallySignedOutput =
  out_redeem_script :: bytes
  out_hd_keypaths :: "(bytes \<times> int list) list"

record PSBT =
  tx :: CTransaction
  inputs :: "PartiallySignedInput list"
  outputs :: "PartiallySignedOutput list"

text \<open>
  The functions of \<open>..serializations\<close> that \<open>sign_tx\<close> calls are arguments of the
  model: the script predicates, the two methods of \<open>CTxOut\<close>, and the two serialisers.
\<close>

record serializations =
  is_p2pkh :: "bytes \<Rightarrow> bool"
  is_p2sh :: "bytes \<Rightarrow> bool"
  is_p2wpkh :: "bytes \<Rightarrow> bool"
  is_p2wsh :: "bytes \<Rightarrow> bool"
  CTxOut_is_p2pkh :: "CTxOut \<Rightarrow> bool"
  CTxOut_is_p2sh :: "CTxOut \<Rightarrow> bool"
  ser_uint256 :: "int \<Rightarrow> bytes"
  ser_sig_der :: "bytes \<Rightarrow> bytes \<Rightarrow> bytes"

subsection \<open>The signing request\<close>

datatype SimpleType = SimpleType_P2WPKH | SimpleType_P2WPKH_P2SH

datatype BTCOutputType = P2PKH | P2WPKH | P2SH | P2WSH

record BTCPrevTxInputType =
  ptx_prev_out_hash :: bytes
  ptx_prev_out_index :: nat
  ptx_signature_script :: bytes
  ptx_sequence :: nat

record BTCPrevTxOutputType =
  ptx_value :: int
  ptx_pubkey_script :: bytes

record BTCPrevTx =
  ptx_version :: int
  ptx_locktime :: nat
  ptx_inputs :: "BTCPrevTxInputType list"
  ptx_outputs :: "BTCPrevTxOutputType list"

record BTCInputType =
  prev_out_hash :: bytes
  prev_out_index :: nat
  prev_out_value :: int
  in_sequence :: nat
  in_keypath :: "int list"
  in_script_config_index :: nat
  prev_tx :: BTCPrevTx

datatype BTCOutputType_request =
    BTCOutputInternal "int list" int nat
  | BTCOutputExternal BTCOutputType bytes int

record BTCScriptConfigWithKeypath =
  script_config :: SimpleType
  config_keypath :: "int list"

text \<open>The arguments of the vendor call \<open>btc_sign\<close>.\<close>

record btc_sign_call =
  sign_coin :: BTCCoin
  script_configs :: "BTCScriptConfigWithKeypath list"
  sign_inputs :: "BTCInputType list"
  sign_outputs :: "BTCOutputType_request list"
  sign_locktime :: nat
  sign_version :: int

subsection \<open>\<open>sign_tx\<close>\<close>

text \<open>
  \<open>find_our_key\<close>: the first entry, in iteration order, whose fingerprint
  \<open>keypath_with_fingerprint[0]\<close> equals \<open>master_fp\<close>; the result is the public key and
  the path without the fingerprint, or \<open>(None, None)\<close>.  Reading element 0 of an empty
  sequence raises \<open>IndexError\<close>.
\<close>

fun find_our_key ::
  "int \<Rightarrow> (bytes \<times> int list) list \<Rightarrow> error + (bytes option \<times> int list option)" where
  "find_our_key master_fp [] = Inr (None, None)"
| "find_our_key master_fp ((pubkey, keypath_with_fingerprint) # keypaths) =
     (case keypath_with_fingerprint of
        [] \<Rightarrow> Inl IndexError
      | fp # keypath \<Rightarrow>
          if fp \<noteq> master_fp then find_our_key master_fp keypaths
          else Inr (Some pubkey, Some keypath))"

text \<open>
  \<open>get_simple_type\<close>.  Its last message is formatted with \<open>input_index\<close>, a variable of
  the enclosing \<open>sign_tx\<close>: the index of the input being translated, the index of the last
  input once the loop over the inputs is over, and unbound (\<open>None\<close> here, a \<open>NameError\<close>)
  when there was no input.
\<close>

definition get_simple_type ::
  "serializations \<Rightarrow> nat option \<Rightarrow> CTxOut \<Rightarrow> bytes \<Rightarrow> error + SimpleType" where
  "get_simple_type S input_index output redeem =
     (if is_p2pkh S (scriptPubKey output) then Inl (BadArgumentError Legacy_p2pkh_script)
      else if is_p2wpkh S (scriptPubKey output) then Inr SimpleType_P2WPKH
      else if CTxOut_is_p2sh S output \<and> is_p2wpkh S redeem then Inr SimpleType_P2WPKH_P2SH
      else (case input_index of
              None \<Rightarrow> Inl NameError
            | Some i \<Rightarrow> Inl (BadArgumentError (Input_script_not_recognized i))))"

text \<open>\<open>script_config_index_map\<close>.\<close>

fun script_config_index_map :: "SimpleType \<Rightarrow> nat" where
  "script_config_index_map SimpleType_P2WPKH = 0"
| "script_config_index_map SimpleType_P2WPKH_P2SH = 1"

text \<open>
  Lines 464 to 469: \<open>if psbt_in.sighash and psbt_in.sighash != 1: raise BadArgumentError\<close>.
  An absent sighash (\<open>None\<close>) and 0 are both false in Python.
\<close>

definition check_sighash :: "PartiallySignedInput \<Rightarrow> error + unit" where
  "check_sighash psbt_in =
     (case sighash psbt_in of
        None \<Rightarrow> Inr ()
      | Some h \<Rightarrow> if h \<noteq> 0 \<and> h \<noteq> 1 then Inl (BadArgumentError (Sighash_not_all h))
                  else Inr ())"

text \<open>
  Lines 471 to 499: the spent output \<open>utxo\<close> and the previous transaction \<open>prevtx\<close>.
  \<^verbatim>\<open>
  if psbt_in.non_witness_utxo:
      if tx_in.prevout.hash != psbt_in.non_witness_utxo.sha256:
          raise BadArgumentError("Input {} has a non_witness_utxo with the wrong hash")
      utxo = psbt_in.non_witness_utxo.vout[tx_in.prevout.n]
      prevtx = psbt_in.non_witness_utxo
  elif psbt_in.witness_utxo:
      utxo = psbt_in.witness_utxo
  if utxo is None:
      raise BadArgumentError("No utxo found for input {}")
  if prevtx is None:
      raise BadArgumentError("Previous transaction missing for input {}")
  \<close>
\<close>

definition previous_output ::
  "nat \<Rightarrow> PartiallySignedInput \<Rightarrow> CTxIn \<Rightarrow> error + (CTxOut \<times> CTransaction)" where
  "previous_output input_index psbt_in tx_in =
     (case (case non_witness_utxo psbt_in of
              Some ptx \<Rightarrow>
                if prevout_hash (prevout tx_in) \<noteq> sha256 ptx
                then Inl (BadArgumentError (Wrong_prevtx_hash input_index))
                else if prevout_n (prevout tx_in) < length (vout ptx)
                then Inr (Some (vout ptx ! prevout_n (prevout tx_in)), Some ptx)
                else Inl IndexError
            | None \<Rightarrow>
                (case witness_utxo psbt_in of
                   Some u \<Rightarrow> Inr (Some u, None)
                 | None \<Rightarrow> Inr (None, None))) of
        Inl e \<Rightarrow> Inl e
      | Inr (None, _) \<Rightarrow> Inl (BadArgumentError (No_utxo_found input_index))
      | Inr (Some utxo, None) \<Rightarrow> Inl (BadArgumentError (Previous_transaction_missing input_index))
      | Inr (Some utxo, Some prevtx) \<Rightarrow> Inr (utxo, prevtx))"

text \<open>
  Lines 501 to 505: the key to sign with.  \<open>if not found_pubkey\<close> is true for \<open>None\<close> and
  for an empty byte string.
\<close>

definition our_input_key ::
  "int \<Rightarrow> nat \<Rightarrow> PartiallySignedInput \<Rightarrow> error + (bytes \<times> int list)" where
  "our_input_key master_fp input_index psbt_in =
     (case find_our_key master_fp (hd_keypaths psbt_in) of
        Inl e \<Rightarrow> Inl e
      | Inr (Some found_pubkey, Some keypath) \<Rightarrow>
          if found_pubkey = [] then Inl (BadArgumentError (No_key_found input_index))
          else Inr (found_pubkey, keypath)
      | Inr _ \<Rightarrow> Inl (BadArgumentError (No_key_found input_index)))"

text \<open>
  Lines 509 to 514: the account of the transaction is \<open>keypath[2]\<close> of the first input,
  and \<open>keypath[2]\<close> of every later input is compared with it.  \<open>keypath[2]\<close> raises
  \<open>IndexError\<close> on a path of fewer than 3 elements.
\<close>

definition check_account :: "int option \<Rightarrow> int list \<Rightarrow> error + int" where
  "check_account bip44_account keypath =
     (if length keypath \<le> 2 then Inl IndexError
      else (case bip44_account of
              None \<Rightarrow> Inr (keypath ! 2)
            | Some a \<Rightarrow> if a \<noteq> keypath ! 2 then Inl (BadArgumentError Account_index_differs)
                        else Inr a))"

definition prev_tx_of :: "serializations \<Rightarrow> CTransaction \<Rightarrow> BTCPrevTx" where
  "prev_tx_of S prevtx =
     \<lparr>ptx_version = nVersion prevtx, ptx_locktime = nLockTime prevtx,
      ptx_inputs = map (\<lambda>prev_in.
          \<lparr>ptx_prev_out_hash = ser_uint256 S (prevout_hash (prevout prev_in)),
           ptx_prev_out_index = prevout_n (prevout prev_in),
           ptx_signature_script = scriptSig prev_in,
           ptx_sequence = nSequence prev_in\<rparr>) (vin prevtx),
      ptx_outputs = map (\<lambda>prev_out.
          \<lparr>ptx_value = nValue prev_out, ptx_pubkey_script = scriptPubKey prev_out\<rparr>) (vout prevtx)\<rparr>"

text \<open>
  One round of the loop over \<open>zip(psbt.inputs, psbt.tx.vin)\<close>: the account after the
  round, the record appended to \<open>inputs\<close> and the key appended to \<open>found_pubkeys\<close>.
\<close>

definition sign_tx_input ::
  "serializations \<Rightarrow> int \<Rightarrow> int option \<Rightarrow> nat \<Rightarrow> PartiallySignedInput \<Rightarrow> CTxIn
     \<Rightarrow> error + (int \<times> BTCInputType \<times> bytes)" where
  "sign_tx_input S master_fp bip44_account input_index psbt_in tx_in =
     (case check_sighash psbt_in of Inl e \<Rightarrow> Inl e | Inr _ \<Rightarrow>
      case previous_output input_index psbt_in tx_in of Inl e \<Rightarrow> Inl e | Inr (utxo, prevtx) \<Rightarrow>
      case our_input_key master_fp input_index psbt_in of Inl e \<Rightarrow> Inl e
      | Inr (found_pubkey, keypath) \<Rightarrow>
      case check_account bip44_account keypath of Inl e \<Rightarrow> Inl e | Inr account \<Rightarrow>
      case get_simple_type S (Some input_index) utxo (redeem_script psbt_in) of Inl e \<Rightarrow> Inl e
      | Inr simple_type \<Rightarrow>
        Inr (account,
             \<lparr>prev_out_hash = ser_uint256 S (prevout_hash (prevout tx_in)),
              prev_out_index = prevout_n (prevout tx_in),
              prev_out_value = nValue utxo,
              in_sequence = nSequence tx_in,
              in_keypath = keypath,
              in_script_config_index = script_config_index_map simple_type,
              prev_tx = prev_tx_of S prevtx\<rparr>,
             found_pubkey))"

text \<open>The loop over the inputs, from \<open>input_index\<close> on, with the account found so far.\<close>

fun sign_tx_inputs ::
  "serializations \<Rightarrow> int \<Rightarrow> int option \<Rightarrow> nat \<Rightarrow> (PartiallySignedInput \<times> CTxIn) list
     \<Rightarrow> error + (int option \<times> BTCInputType list \<times> bytes list)" where
  "sign_tx_inputs S master_fp bip44_account input_index [] = Inr (bip44_account, [], [])"
| "sign_tx_inputs S master_fp bip44_account input_index ((psbt_in, tx_in) # rest) =
     (case sign_tx_input S master_fp bip44_account input_index psbt_in tx_in of
        Inl e \<Rightarrow> Inl e
      | Inr (account, inp, found_pubkey) \<Rightarrow>
          (case sign_tx_inputs S master_fp (Some account) (Suc input_index) rest of
             Inl e \<Rightarrow> Inl e
           | Inr (a, inps, found_pubkeys) \<Rightarrow> Inr (a, inp # inps, found_pubkey # found_pubkeys)))"

text \<open>
  One round of the loop over \<open>zip(psbt.outputs, psbt.tx.vout)\<close>.
  \<open>is_change = keypath and keypath[-2] == 1\<close>: false without a path and for the empty
  path, an \<open>IndexError\<close> for a path of one element.  \<open>n_inputs\<close> is the number of rounds
  the loop over the inputs made: with none, \<open>input_index\<close> and \<open>script_config_index_map\<close>
  are unbound.
\<close>

definition sign_tx_output ::
  "serializations \<Rightarrow> int \<Rightarrow> nat \<Rightarrow> nat \<Rightarrow> PartiallySignedOutput \<Rightarrow> CTxOut
     \<Rightarrow> error + BTCOutputType_request" where
  "sign_tx_output S master_fp n_inputs output_index psbt_out tx_out =
     (case find_our_key master_fp (out_hd_keypaths psbt_out) of Inl e \<Rightarrow> Inl e
      | Inr (_, keypath) \<Rightarrow>
      case (case keypath of
              None \<Rightarrow> Inr False
            | Some kp \<Rightarrow>
                if kp = [] then Inr False
                else if length kp < 2 then Inl IndexError
                else Inr (kp ! (length kp - 2) = 1)) of Inl e \<Rightarrow> Inl e
      | Inr is_change \<Rightarrow>
        if is_change then
          (case get_simple_type S (if n_inputs = 0 then None else Some (n_inputs - 1))
                  tx_out (out_redeem_script psbt_out) of Inl e \<Rightarrow> Inl e
           | Inr simple_type \<Rightarrow>
               if n_inputs = 0 then Inl UnboundLocalError
               else Inr (BTCOutputInternal (the keypath) (nValue tx_out)
                           (script_config_index_map simple_type)))
        else if CTxOut_is_p2pkh S tx_out
          then Inr (BTCOutputExternal P2PKH (take 20 (drop 3 (scriptPubKey tx_out))) (nValue tx_out))
        else if is_p2wpkh S (scriptPubKey tx_out)
          then Inr (BTCOutputExternal P2WPKH (drop 2 (scriptPubKey tx_out)) (nValue tx_out))
        else if CTxOut_is_p2sh S tx_out
          then Inr (BTCOutputExternal P2SH (take 20 (drop 2 (scriptPubKey tx_out))) (nValue tx_out))
        else if is_p2wsh S (scriptPubKey tx_out)
          then Inr (BTCOutputExternal P2WSH (drop 2 (scriptPubKey tx_out)) (nValue tx_out))
        else Inl (BadArgumentError (Output_type_not_recognized output_index)))"

fun sign_tx_outputs ::
  "serializations \<Rightarrow> int \<Rightarrow> nat \<Rightarrow> nat \<Rightarrow> (PartiallySignedOutput \<times> CTxOut) list
     \<Rightarrow> error + BTCOutputType_request list" where
  "sign_tx_outputs S master_fp n_inputs output_index [] = Inr []"
| "sign_tx_outputs S master_fp n_inputs output_index ((psbt_out, tx_out) # rest) =
     (case sign_tx_output S master_fp n_inputs output_index psbt_out tx_out of
        Inl e \<Rightarrow> Inl e
      | Inr out \<Rightarrow>
          (case sign_tx_outputs S master_fp n_inputs (Suc output_index) rest of
             Inl e \<Rightarrow> Inl e
           | Inr outs \<Rightarrow> Inr (out # outs)))"

text \<open>The pairs the two loops run over; \<open>zip\<close> stops at the shorter list.\<close>

abbreviation zip_inputs :: "PSBT \<Rightarrow> (PartiallySignedInput \<times> CTxIn) list" where
  "zip_inputs psbt \<equiv> zip (inputs psbt) (vin (tx psbt))"

abbreviation zip_outputs :: "PSBT \<Rightarrow> (PartiallySignedOutput \<times> CTxOut) list" where
  "zip_outputs psbt \<equiv> zip (outputs psbt) (vout (tx psbt))"

text \<open>
  \<open>sign_tx\<close> up to the call of \<open>btc_sign\<close>: the arguments of that call and the keys found,
  or the exception raised before it.  \<open>master_fp\<close> is the device's fingerprint, queried
  once before the loops.
\<close>

definition sign_tx_request ::
  "serializations \<Rightarrow> int \<Rightarrow> bool \<Rightarrow> PSBT \<Rightarrow> error + (btc_sign_call \<times> bytes list)" where
  "sign_tx_request S master_fp is_testnet psbt =
     (case sign_tx_inputs S master_fp None 0 (zip_inputs psbt) of
        Inl e \<Rightarrow> Inl e
      | Inr (bip44_account, inps, found_pubkeys) \<Rightarrow>
      case sign_tx_outputs S master_fp (length (zip_inputs psbt)) 0 (zip_outputs psbt) of
        Inl e \<Rightarrow> Inl e
      | Inr outs \<Rightarrow>
      case bip44_account of
        None \<Rightarrow> Inl AssertionError
      | Some account \<Rightarrow>
          (let bip44_network = (if is_testnet then 1 + HARDENED else 0 + HARDENED) in
           Inr (\<lparr>sign_coin = (if is_testnet then TBTC else BTC),
                 script_configs =
                   [\<lparr>script_config = SimpleType_P2WPKH,
                     config_keypath = [84 + HARDENED, bip44_network, account]\<rparr>,
                    \<lparr>script_config = SimpleType_P2WPKH_P2SH,
                     config_keypath = [49 + HARDENED, bip44_network, account]\<rparr>],
                 sign_inputs = inps,
                 sign_outputs = outs,
                 sign_locktime = nLockTime (tx psbt),
                 sign_version = nVersion (tx psbt)\<rparr>,
                found_pubkeys)))"

text \<open>
  The decorator \<open>bitbox02_exception\<close>, as a map on the exception that leaves the wrapped
  function.  \<open>ERR_GENERIC\<close> is a constant of the vendor library.
\<close>

definition bitbox02_exception :: "int \<Rightarrow> error \<Rightarrow> error" where
  "bitbox02_exception ERR_GENERIC exc =
     (case exc of
        UserAbortException \<Rightarrow> ActionCanceledError
      | Bitbox02Exception code \<Rightarrow>
          if code = ERR_GENERIC \<or> code = ERR_INVALID_INPUT
          then BadArgumentError Invalid_input else exc
      | FirmwareVersionOutdatedException \<Rightarrow> DeviceNotReadyError
      | _ \<Rightarrow> exc)"

text \<open>
  The last loop of \<open>sign_tx\<close>:
  \<open>for (_, sig), pubkey, psbt_in in zip(sigs, found_pubkeys, psbt.inputs)\<close> stores
  \<open>ser_sig_der(sig[:32], sig[32:64])\<close> under \<open>pubkey\<close> in \<open>psbt_in.partial_sigs\<close>; inputs
  beyond the shortest of the three lists are left as they are.
\<close>

fun merge_sigs ::
  "serializations \<Rightarrow> (nat \<times> bytes) list \<Rightarrow> bytes list \<Rightarrow> PartiallySignedInput list
     \<Rightarrow> PartiallySignedInput list" where
  "merge_sigs S ((i, sig) # sigs) (pubkey # found_pubkeys) (psbt_in # psbt_ins) =
     psbt_in\<lparr>partial_sigs :=
         AList.update pubkey (ser_sig_der S (take 32 sig) (take 32 (drop 32 sig)))
           (partial_sigs psbt_in)\<rparr>
       # merge_sigs S sigs found_pubkeys psbt_ins"
| "merge_sigs S sigs found_pubkeys psbt_ins = psbt_ins"

text \<open>
  \<open>sign_tx\<close>.  The device is the function \<open>btc_sign\<close>, from the arguments of the call to
  the signatures or the exception of the vendor library.  The result is the list of calls
  made to \<open>btc_sign\<close>, and the PSBT with the signatures merged or the exception raised.
\<close>

definition sign_tx ::
  "serializations \<Rightarrow> (btc_sign_call \<Rightarrow> error + (nat \<times> bytes) list) \<Rightarrow> int \<Rightarrow> int \<Rightarrow> bool
     \<Rightarrow> PSBT \<Rightarrow> btc_sign_call list \<times> (error + PSBT)" where
  "sign_tx S btc_sign ERR_GENERIC master_fp is_testnet psbt =
     (case sign_tx_request S master_fp is_testnet psbt of
        Inl e \<Rightarrow> ([], Inl (bitbox02_exception ERR_GENERIC e))
      | Inr (call, found_pubkeys) \<Rightarrow>
          (case btc_sign call of
             Inl e \<Rightarrow> ([call], Inl (bitbox02_exception ERR_GENERIC e))
           | Inr sigs \<Rightarrow>
               ([call], Inr (psbt\<lparr>inputs := merge_sigs S sigs found_pubkeys (inputs psbt)\<rparr>))))"

section \<open>\<open>sign_tx\<close>: the two loops\<close>

lemma check_account_Inr:
  "check_account acct kp = Inr a \<Longrightarrow> 2 < length kp \<and> a = kp ! 2 \<and> (acct = None \<or> acct = Some a)"
  by (auto simp: check_account_def split: if_splits option.splits)

lemma our_input_key_Inr:
  "our_input_key fp i p = Inr (pk, kp) \<Longrightarrow>
   find_our_key fp (hd_keypaths p) = Inr (Some pk, Some kp) \<and> pk \<noteq> []"
  by (auto simp: our_input_key_def split: sum.splits option.splits if_splits)

lemma previous_output_Inr:
  "previous_output i p t = Inr (utxo, prevtx) \<Longrightarrow>
   non_witness_utxo p = Some prevtx \<and> prevout_hash (prevout t) = sha256 prevtx
   \<and> prevout_n (prevout t) < length (vout prevtx)
   \<and> utxo = vout prevtx ! prevout_n (prevout t)"
  by (auto simp: previous_output_def split: option.splits if_splits)

lemma sign_tx_input_Inr:
  assumes "sign_tx_input S fp acct i p t = Inr (account, inp, pk)"
  shows "check_sighash p = Inr ()
       \<and> (\<exists>utxo prevtx kp st.
             previous_output i p t = Inr (utxo, prevtx)
           \<and> our_input_key fp i p = Inr (pk, kp)
           \<and> check_account acct kp = Inr account
           \<and> get_simple_type S (Some i) utxo (redeem_script p) = Inr st
           \<and> inp = \<lparr>prev_out_hash = ser_uint256 S (prevout_hash (prevout t)),
                     prev_out_index = prevout_n (prevout t),
                     prev_out_value = nValue utxo,
                     in_sequence = nSequence t,
                     in_keypath = kp,
                     in_script_config_index = script_config_index_map st,
                     prev_tx = prev_tx_of S prevtx\<rparr>)"
  using assms by (auto simp: sign_tx_input_def split: sum.splits prod.splits)

lemma sign_tx_inputs_append:
  "sign_tx_inputs S fp acct i (xs @ ys) =
     (case sign_tx_inputs S fp acct i xs of
        Inl e \<Rightarrow> Inl e
      | Inr (a, ins, pks) \<Rightarrow>
          (case sign_tx_inputs S fp a (i + length xs) ys of
             Inl e \<Rightarrow> Inl e
           | Inr (a', ins', pks') \<Rightarrow> Inr (a', ins @ ins', pks @ pks')))"
proof (induction xs arbitrary: acct i)
  case Nil
  show ?case by (simp split: sum.splits prod.splits)
next
  case (Cons x xs)
  obtain p t where x: "x = (p, t)" by (cases x)
  show ?case
    by (simp add: x Cons.IH split: sum.splits prod.splits)
qed

lemma sign_tx_outputs_append:
  "sign_tx_outputs S fp n i (xs @ ys) =
     (case sign_tx_outputs S fp n i xs of
        Inl e \<Rightarrow> Inl e
      | Inr outs \<Rightarrow>
          (case sign_tx_outputs S fp n (i + length xs) ys of
             Inl e \<Rightarrow> Inl e
           | Inr outs' \<Rightarrow> Inr (outs @ outs')))"
proof (induction xs arbitrary: i)
  case Nil
  show ?case by (simp split: sum.splits)
next
  case (Cons x xs)
  obtain p t where x: "x = (p, t)" by (cases x)
  show ?case
    by (simp add: x Cons.IH split: sum.splits)
qed

lemma sign_tx_inputs_fail_mid:
  assumes "sign_tx_inputs S fp acct i xs = Inr (a, ins, pks)"
    and "sign_tx_input S fp a (i + length xs) p t = Inl e"
  shows "sign_tx_inputs S fp acct i (xs @ (p, t) # ys) = Inl e"
  by (simp add: sign_tx_inputs_append assms)

lemma sign_tx_outputs_fail_mid:
  assumes "sign_tx_outputs S fp n i xs = Inr outs"
    and "sign_tx_output S fp n (i + length xs) p t = Inl e"
  shows "sign_tx_outputs S fp n i (xs @ (p, t) # ys) = Inl e"
  by (simp add: sign_tx_outputs_append assms)

lemma sign_tx_inputs_fail_at:
  assumes "j < length zs"
    and "sign_tx_inputs S fp None 0 (take j zs) = Inr (a, ins, pks)"
    and "sign_tx_input S fp a j (fst (zs ! j)) (snd (zs ! j)) = Inl e"
  shows "sign_tx_inputs S fp None 0 zs = Inl e"
proof -
  have zs: "take j zs @ (fst (zs ! j), snd (zs ! j)) # drop (Suc j) zs = zs"
    using assms(1) by (simp add: id_take_nth_drop [symmetric])
  have len: "0 + length (take j zs) = j" using assms(1) by simp
  from assms(3) have "sign_tx_input S fp a (0 + length (take j zs)) (fst (zs ! j)) (snd (zs ! j)) = Inl e"
    unfolding len .
  from sign_tx_inputs_fail_mid [OF assms(2) this, of "drop (Suc j) zs"]
  show ?thesis unfolding zs .
qed

lemma sign_tx_outputs_fail_at:
  assumes "j < length zo"
    and "sign_tx_outputs S fp n 0 (take j zo) = Inr outs"
    and "sign_tx_output S fp n j (fst (zo ! j)) (snd (zo ! j)) = Inl e"
  shows "sign_tx_outputs S fp n 0 zo = Inl e"
proof -
  have zo: "take j zo @ (fst (zo ! j), snd (zo ! j)) # drop (Suc j) zo = zo"
    using assms(1) by (simp add: id_take_nth_drop [symmetric])
  have len: "0 + length (take j zo) = j" using assms(1) by simp
  from assms(3) have "sign_tx_output S fp n (0 + length (take j zo)) (fst (zo ! j)) (snd (zo ! j)) = Inl e"
    unfolding len .
  from sign_tx_outputs_fail_mid [OF assms(2) this, of "drop (Suc j) zo"]
  show ?thesis unfolding zo .
qed

lemma sign_tx_inputs_Inr:
  assumes "sign_tx_inputs S fp acct i zs = Inr (a, ins, pks)"
  shows "(\<forall>x. acct = Some x \<longrightarrow> a = Some x)
       \<and> (zs \<noteq> [] \<longrightarrow> a \<noteq> None)
       \<and> length ins = length zs \<and> length pks = length zs
       \<and> (\<forall>j < length zs. \<exists>acct' account.
             a = Some account
           \<and> sign_tx_input S fp acct' (i + j) (fst (zs ! j)) (snd (zs ! j))
               = Inr (account, ins ! j, pks ! j))"
  using assms
proof (induction zs arbitrary: acct i a ins pks)
  case Nil
  then show ?case by auto
next
  case (Cons z zs)
  obtain p t where z: "z = (p, t)" by (cases z)
  from Cons.prems z obtain account inp pk a' ins' pks' where
    hd: "sign_tx_input S fp acct i p t = Inr (account, inp, pk)" and
    tl: "sign_tx_inputs S fp (Some account) (Suc i) zs = Inr (a', ins', pks')" and
    res: "a = a'" "ins = inp # ins'" "pks = pk # pks'"
    by (auto split: sum.splits prod.splits)
  note ih = Cons.IH [OF tl]
  from ih have a': "a' = Some account" by simp
  from sign_tx_input_Inr [OF hd] obtain kp where "check_account acct kp = Inr account" by blast
  from check_account_Inr [OF this] have same: "acct = None \<or> acct = Some account" by blast
  have 1: "\<forall>x. acct = Some x \<longrightarrow> a = Some x" using same a' res(1) by auto
  have 2: "a \<noteq> None" using a' res(1) by simp
  have 3: "length ins = length (z # zs)" "length pks = length (z # zs)"
    using ih res by simp_all
  have 4: "\<forall>j < length (z # zs). \<exists>acct' account'.
             a = Some account'
           \<and> sign_tx_input S fp acct' (i + j) (fst ((z # zs) ! j)) (snd ((z # zs) ! j))
               = Inr (account', ins ! j, pks ! j)"
  proof (intro allI impI)
    fix j assume j: "j < length (z # zs)"
    show "\<exists>acct' account'.
             a = Some account'
           \<and> sign_tx_input S fp acct' (i + j) (fst ((z # zs) ! j)) (snd ((z # zs) ! j))
               = Inr (account', ins ! j, pks ! j)"
    proof (cases j)
      case 0
      with hd z res a' show ?thesis by auto
    next
      case (Suc k)
      with j have "k < length zs" by simp
      with ih obtain acct' account' where
        "a' = Some account'"
        "sign_tx_input S fp acct' (Suc i + k) (fst (zs ! k)) (snd (zs ! k)) = Inr (account', ins' ! k, pks' ! k)"
        by blast
      with Suc res show ?thesis by auto
    qed
  qed
  from 1 2 3 4 show ?case by blast
qed


lemma sign_tx_inputs_Inr_set:
  assumes "sign_tx_inputs S fp acct i zs = Inr (a, ins, pks)" and "(p, t) \<in> set zs"
  shows "check_sighash p = Inr ()
       \<and> (\<exists>pk kp. find_our_key fp (hd_keypaths p) = Inr (Some pk, Some kp)
             \<and> 2 < length kp \<and> a = Some (kp ! 2))"
proof -
  from assms(2) obtain j where j: "j < length zs" and nth: "zs ! j = (p, t)"
    by (auto simp: in_set_conv_nth)
  from sign_tx_inputs_Inr [OF assms(1)] j nth obtain acct' account where
    a: "a = Some account" and
    inp: "sign_tx_input S fp acct' (i + j) p t = Inr (account, ins ! j, pks ! j)"
    by fastforce
  from sign_tx_input_Inr [OF inp] obtain kp where
    sh: "check_sighash p = Inr ()" and
    key: "our_input_key fp (i + j) p = Inr (pks ! j, kp)" and
    acc: "check_account acct' kp = Inr account"
    by blast
  from our_input_key_Inr [OF key] check_account_Inr [OF acc] sh a show ?thesis
    by blast
qed

lemma sign_tx_outputs_Inr:
  assumes "sign_tx_outputs S fp n i zo = Inr outs"
  shows "length outs = length zo
       \<and> (\<forall>j < length zo.
             sign_tx_output S fp n (i + j) (fst (zo ! j)) (snd (zo ! j)) = Inr (outs ! j))"
  using assms
proof (induction zo arbitrary: i outs)
  case Nil
  then show ?case by simp
next
  case (Cons z zo)
  obtain p t where z: "z = (p, t)" by (cases z)
  from Cons.prems z obtain out outs' where
    hd: "sign_tx_output S fp n i p t = Inr out" and
    tl: "sign_tx_outputs S fp n (Suc i) zo = Inr outs'" and
    res: "outs = out # outs'"
    by (auto split: sum.splits)
  note ih = Cons.IH [OF tl]
  have "\<forall>j < length (z # zo).
          sign_tx_output S fp n (i + j) (fst ((z # zo) ! j)) (snd ((z # zo) ! j)) = Inr (outs ! j)"
  proof (intro allI impI)
    fix j assume j: "j < length (z # zo)"
    show "sign_tx_output S fp n (i + j) (fst ((z # zo) ! j)) (snd ((z # zo) ! j)) = Inr (outs ! j)"
    proof (cases j)
      case 0
      with hd z res show ?thesis by simp
    next
      case (Suc k)
      with j ih res show ?thesis by simp
    qed
  qed
  with ih res show ?case by simp
qed

lemma sign_tx_request_inputs_fail:
  "sign_tx_inputs S fp None 0 (zip_inputs psbt) = Inl e \<Longrightarrow>
   sign_tx_request S fp net psbt = Inl e"
  by (simp add: sign_tx_request_def)

lemma sign_tx_request_outputs_fail:
  "sign_tx_inputs S fp None 0 (zip_inputs psbt) = Inr st \<Longrightarrow>
   sign_tx_outputs S fp (length (zip_inputs psbt)) 0 (zip_outputs psbt) = Inl e \<Longrightarrow>
   sign_tx_request S fp net psbt = Inl e"
  by (simp add: sign_tx_request_def split: prod.splits)

lemma sign_tx_request_Inr:
  assumes "sign_tx_request S fp net psbt = Inr (call, pks)"
  shows "\<exists>account.
           sign_tx_inputs S fp None 0 (zip_inputs psbt) = Inr (Some account, sign_inputs call, pks)
         \<and> sign_tx_outputs S fp (length (zip_inputs psbt)) 0 (zip_outputs psbt)
             = Inr (sign_outputs call)
         \<and> script_configs call =
             [\<lparr>script_config = SimpleType_P2WPKH,
               config_keypath = [84 + HARDENED, if net then 1 + HARDENED else 0 + HARDENED, account]\<rparr>,
              \<lparr>script_config = SimpleType_P2WPKH_P2SH,
               config_keypath = [49 + HARDENED, if net then 1 + HARDENED else 0 + HARDENED, account]\<rparr>]"
  using assms
  by (auto simp: sign_tx_request_def Let_def split: sum.splits prod.splits option.splits)

lemma sign_tx_no_call:
  "sign_tx_request S fp net psbt = Inl e \<Longrightarrow>
   sign_tx S btc_sign G fp net psbt = ([], Inl (bitbox02_exception G e))"
  by (simp add: sign_tx_def)

lemma sign_tx_calls:
  "sign_tx_request S fp net psbt = Inr (call, pks) \<Longrightarrow>
   fst (sign_tx S btc_sign G fp net psbt) = [call]"
  by (simp add: sign_tx_def split: sum.splits)

lemma bitbox02_exception_own [simp]:
  "bitbox02_exception G (BadArgumentError b) = BadArgumentError b"
  "bitbox02_exception G IndexError = IndexError"
  by (simp_all add: bitbox02_exception_def)

lemma sign_tx_input_fails:
  assumes "j < length (zip_inputs psbt)"
    and "sign_tx_inputs S fp None 0 (take j (zip_inputs psbt)) = Inr (a, ins, pks)"
    and "sign_tx_input S fp a j (fst (zip_inputs psbt ! j)) (snd (zip_inputs psbt ! j)) = Inl e"
  shows "sign_tx S btc_sign G fp net psbt = ([], Inl (bitbox02_exception G e))"
  by (rule sign_tx_no_call, rule sign_tx_request_inputs_fail, rule sign_tx_inputs_fail_at [OF assms])

lemma sign_tx_inputs_differ_fail:
  assumes "(p1, t1) \<in> set zs" "(p2, t2) \<in> set zs"
    and "find_our_key fp (hd_keypaths p1) = Inr (k1, Some kp1)"
    and "find_our_key fp (hd_keypaths p2) = Inr (k2, Some kp2)"
    and "kp1 ! 2 \<noteq> kp2 ! 2"
  shows "\<exists>e. sign_tx_inputs S fp acct i zs = Inl e"
proof (cases "sign_tx_inputs S fp acct i zs")
  case (Inl e)
  then show ?thesis by blast
next
  case (Inr r)
  obtain a ins pks where r: "r = (a, ins, pks)" by (cases r)
  from sign_tx_inputs_Inr_set [OF Inr [unfolded r] assms(1)] assms(3)
  have "a = Some (kp1 ! 2)" by auto
  moreover from sign_tx_inputs_Inr_set [OF Inr [unfolded r] assms(2)] assms(4)
  have "a = Some (kp2 ! 2)" by auto
  ultimately show ?thesis using assms(5) by simp
qed


section \<open>Example transactions\<close>

text \<open>
  Concrete values for the examples below: an instance of the script predicates and
  serialisers (the standard script templates, 32-byte little-endian integers and DER
  signatures), a device fingerprint, a previous transaction with one native-segwit
  output, an input that spends it with one key of the device, a PSBT around given inputs
  and outputs, and a device that signs every input with a fixed signature.
\<close>

definition example_serializations :: serializations where
  "example_serializations =
     \<lparr>is_p2pkh = (\<lambda>s. length s = 25 \<and> take 3 s = [0x76, 0xA9, 0x14] \<and> drop 23 s = [0x88, 0xAC]),
      is_p2sh = (\<lambda>s. length s = 23 \<and> take 2 s = [0xA9, 0x14] \<and> drop 22 s = [0x87]),
      is_p2wpkh = (\<lambda>s. length s = 22 \<and> take 2 s = [0x00, 0x14]),
      is_p2wsh = (\<lambda>s. length s = 34 \<and> take 2 s = [0x00, 0x20]),
      CTxOut_is_p2pkh = (\<lambda>out. length (scriptPubKey out) = 25
          \<and> take 3 (scriptPubKey out) = [0x76, 0xA9, 0x14]
          \<and> drop 23 (scriptPubKey out) = [0x88, 0xAC]),
      CTxOut_is_p2sh = (\<lambda>out. length (scriptPubKey out) = 23
          \<and> take 2 (scriptPubKey out) = [0xA9, 0x14] \<and> drop 22 (scriptPubKey out) = [0x87]),
      ser_uint256 = (\<lambda>u. map (\<lambda>i. of_nat (nat u div 256 ^ i)) [0..<32]),
      ser_sig_der = (\<lambda>r s. [0x30, of_nat (length r + length s + 4), 0x02, of_nat (length r)] @ r
          @ [0x02, of_nat (length s)] @ s @ [0x01])\<rparr>"

definition example_fp :: int where
  "example_fp = 3735928559"

definition example_p2wpkh :: bytes where
  "example_p2wpkh = [0x00, 0x14] @ replicate 20 0xAB"

definition example_prevtx :: CTransaction where
  "example_prevtx =
     \<lparr>nVersion = 2, vin = [], vout = [\<lparr>nValue = 5000, scriptPubKey = example_p2wpkh\<rparr>],
      nLockTime = 0, sha256 = 77\<rparr>"

definition example_txin :: CTxIn where
  "example_txin = \<lparr>prevout = \<lparr>prevout_hash = 77, prevout_n = 0\<rparr>, scriptSig = [], nSequence = 4294967295\<rparr>"

definition example_input :: "int list \<Rightarrow> PartiallySignedInput" where
  "example_input path =
     \<lparr>non_witness_utxo = Some example_prevtx, witness_utxo = None, sighash = None,
      redeem_script = [], hd_keypaths = [([0x02, 0x11], example_fp # path)], partial_sigs = []\<rparr>"

definition example_psbt ::
  "PartiallySignedInput list \<Rightarrow> PartiallySignedOutput list \<Rightarrow> PSBT" where
  "example_psbt ins outs =
     \<lparr>tx = \<lparr>nVersion = 2, vin = map (\<lambda>_. example_txin) ins,
             vout = map (\<lambda>_. \<lparr>nValue = 4000, scriptPubKey = example_p2wpkh\<rparr>) outs,
             nLockTime = 0, sha256 = 78\<rparr>,
      inputs = ins, outputs = outs\<rparr>"

definition example_btc_sign :: "btc_sign_call \<Rightarrow> error + (nat \<times> bytes) list" where
  "example_btc_sign call = Inr (map (\<lambda>i. (i, replicate 64 1)) [0..<length (sign_inputs call)])"

section \<open>\<open>sign_tx\<close>: the claims about the inputs\<close>

lemmas example_defs =
  sign_tx_input_def check_sighash_def previous_output_def our_input_key_def
  check_account_def get_simple_type_def example_serializations_def example_input_def
  example_txin_def example_prevtx_def example_p2wpkh_def example_fp_def example_psbt_def

lemma example_input_ok:
  "\<exists>inp. sign_tx_input example_serializations example_fp None j
     (example_input [84 + HARDENED, HARDENED, HARDENED, 0, 0]) example_txin
   = Inr (HARDENED, inp, [0x02, 0x11])"
  by (simp add: example_defs)

lemma sign_tx_input_fails_at:
  assumes "j < length (zip_inputs psbt)"
    and "zip_inputs psbt ! j = (p, t)"
    and "sign_tx_inputs S fp None 0 (take j (zip_inputs psbt)) = Inr (a, ins, pks)"
    and "sign_tx_input S fp a j p t = Inl e"
  shows "sign_tx S btc_sign G fp net psbt = ([], Inl (bitbox02_exception G e))"
proof -
  from assms(2,4)
  have "sign_tx_input S fp a j (fst (zip_inputs psbt ! j)) (snd (zip_inputs psbt ! j)) = Inl e"
    by simp
  from sign_tx_input_fails [OF assms(1) assms(3) this] show ?thesis .
qed

lemma sign_tx_input_account_differs:
  assumes "check_sighash p = Inr ()" "previous_output j p t = Inr (u, ptx)"
    and "our_input_key fp j p = Inr (pk, kp)" "2 < length kp" "kp ! 2 \<noteq> a"
  shows "sign_tx_input S fp (Some a) j p t = Inl (BadArgumentError Account_index_differs)"
  using assms by (simp add: sign_tx_input_def check_account_def)

text \<open>
  C6.  If two inputs of a PSBT have matched key paths with different account components
  (\<open>keypath[2]\<close>), \<open>sign_tx\<close> fails and never calls \<open>btc_sign\<close>.  It fails at the first
  divergence: when the inputs before input \<open>j\<close> were translated and input \<open>j\<close> gets as far as
  the comparison with an account other than theirs, the error is the bad-argument error
  about the account index, whatever follows input \<open>j\<close>, and \<open>btc_sign\<close> is not called.
\<close>

theorem account_divergence_fails:
  "((p1, t1) \<in> set (zip_inputs psbt) \<and> (p2, t2) \<in> set (zip_inputs psbt)
     \<and> find_our_key fp (hd_keypaths p1) = Inr (k1, Some kp1)
     \<and> find_our_key fp (hd_keypaths p2) = Inr (k2, Some kp2)
     \<and> 2 < length kp1 \<and> 2 < length kp2 \<and> kp1 ! 2 \<noteq> kp2 ! 2
     \<longrightarrow> (\<exists>e. sign_tx S btc_sign G fp net psbt = ([], Inl e)))
   \<and> (j < length (zip_inputs psbt) \<and> zip_inputs psbt ! j = (psbt_in, tx_in)
     \<and> sign_tx_inputs S fp None 0 (take j (zip_inputs psbt)) = Inr (Some a, ins, pks)
     \<and> check_sighash psbt_in = Inr ()
     \<and> previous_output j psbt_in tx_in = Inr (utxo, prevtx)
     \<and> our_input_key fp j psbt_in = Inr (pk, kp)
     \<and> 2 < length kp \<and> kp ! 2 \<noteq> a
     \<longrightarrow> sign_tx S btc_sign G fp net psbt = ([], Inl (BadArgumentError Account_index_differs)))"
proof (intro conjI impI)
  assume h: "(p1, t1) \<in> set (zip_inputs psbt) \<and> (p2, t2) \<in> set (zip_inputs psbt)
     \<and> find_our_key fp (hd_keypaths p1) = Inr (k1, Some kp1)
     \<and> find_our_key fp (hd_keypaths p2) = Inr (k2, Some kp2)
     \<and> 2 < length kp1 \<and> 2 < length kp2 \<and> kp1 ! 2 \<noteq> kp2 ! 2"
  then obtain e where "sign_tx_inputs S fp None 0 (zip_inputs psbt) = Inl e"
    using sign_tx_inputs_differ_fail [of p1 t1 "zip_inputs psbt" p2 t2 fp k1 kp1 k2 kp2 S None 0]
    by blast
  then have "sign_tx S btc_sign G fp net psbt = ([], Inl (bitbox02_exception G e))"
    by (intro sign_tx_no_call sign_tx_request_inputs_fail)
  then show "\<exists>e. sign_tx S btc_sign G fp net psbt = ([], Inl e)" by blast
next
  assume h: "j < length (zip_inputs psbt) \<and> zip_inputs psbt ! j = (psbt_in, tx_in)
     \<and> sign_tx_inputs S fp None 0 (take j (zip_inputs psbt)) = Inr (Some a, ins, pks)
     \<and> check_sighash psbt_in = Inr ()
     \<and> previous_output j psbt_in tx_in = Inr (utxo, prevtx)
     \<and> our_input_key fp j psbt_in = Inr (pk, kp)
     \<and> 2 < length kp \<and> kp ! 2 \<noteq> a"
  then have "sign_tx_input S fp (Some a) j psbt_in tx_in = Inl (BadArgumentError Account_index_differs)"
    by (intro sign_tx_input_account_differs) auto
  with h have "sign_tx S btc_sign G fp net psbt
      = ([], Inl (bitbox02_exception G (BadArgumentError Account_index_differs)))"
    by (intro sign_tx_input_fails_at) auto
  then show "sign_tx S btc_sign G fp net psbt = ([], Inl (BadArgumentError Account_index_differs))"
    by simp
qed

text \<open>Two native-segwit inputs, of accounts \<open>0'\<close> and \<open>1'\<close>.\<close>

definition example_mixed_accounts :: PSBT where
  "example_mixed_accounts =
     example_psbt [example_input [84 + HARDENED, HARDENED, HARDENED, 0, 0],
                   example_input [84 + HARDENED, HARDENED, HARDENED + 1, 0, 0]] []"

theorem account_divergence_fails_witness:
  "sign_tx example_serializations example_btc_sign 103 example_fp False example_mixed_accounts
     = ([], Inl (BadArgumentError Account_index_differs))"
proof -
  let ?p = example_mixed_accounts
  let ?in1 = "example_input [84 + HARDENED, HARDENED, HARDENED + 1, 0, 0]"
  have zs: "zip_inputs ?p =
      [(example_input [84 + HARDENED, HARDENED, HARDENED, 0, 0], example_txin), (?in1, example_txin)]"
    by (simp add: example_mixed_accounts_def example_psbt_def)
  from example_input_ok [of 0] obtain inp where
    "sign_tx_input example_serializations example_fp None 0
       (example_input [84 + HARDENED, HARDENED, HARDENED, 0, 0]) example_txin
     = Inr (HARDENED, inp, [0x02, 0x11])" by blast
  then have pre: "sign_tx_inputs example_serializations example_fp None 0 (take 1 (zip_inputs ?p))
      = Inr (Some HARDENED, [inp], [[0x02, 0x11]])"
    by (simp add: zs)
  have j: "1 < length (zip_inputs ?p)" by (simp add: zs)
  have nth: "zip_inputs ?p ! 1 = (?in1, example_txin)" by (simp add: zs)
  have sh: "check_sighash ?in1 = Inr ()"
    by (simp add: example_defs)
  have po: "previous_output 1 ?in1 example_txin
      = Inr (\<lparr>nValue = 5000, scriptPubKey = example_p2wpkh\<rparr>, example_prevtx)"
    by (simp add: example_defs)
  have key: "our_input_key example_fp 1 ?in1
      = Inr ([0x02, 0x11], [84 + HARDENED, HARDENED, HARDENED + 1, 0, 0])"
    by (simp add: example_defs)
  have len: "2 < length [84 + HARDENED, HARDENED, HARDENED + 1, 0, 0]" by simp
  have diff: "[84 + HARDENED, HARDENED, HARDENED + 1, 0, 0] ! 2 \<noteq> HARDENED" by simp
  from account_divergence_fails [of _ _ ?p _ _ _ _ _ _ _ _ _ _ _ 1 ?in1 example_txin HARDENED]
  show ?thesis
    using j nth pre sh po key len diff by blast
qed


lemma sign_tx_inputs_bad_sighash:
  assumes "(p, t) \<in> set zs" "sighash p = Some h" "h \<noteq> 0" "h \<noteq> 1"
  shows "\<exists>e. sign_tx_inputs S fp acct i zs = Inl e"
proof (cases "sign_tx_inputs S fp acct i zs")
  case (Inl e)
  then show ?thesis by blast
next
  case (Inr r)
  obtain a ins pks where r: "r = (a, ins, pks)" by (cases r)
  from sign_tx_inputs_Inr_set [OF Inr [unfolded r] assms(1)]
  have "check_sighash p = Inr ()" by blast
  with assms(2-4) show ?thesis by (simp add: check_sighash_def)
qed

lemma previous_output_sighash [simp]:
  "previous_output i (q\<lparr>sighash := h\<rparr>) t = previous_output i q t"
  by (cases "non_witness_utxo q"; cases "witness_utxo q") (simp_all add: previous_output_def)

lemma our_input_key_sighash [simp]:
  "our_input_key fp i (q\<lparr>sighash := h\<rparr>) = our_input_key fp i q"
  by (simp add: our_input_key_def)

lemma sign_tx_input_sighash:
  "check_sighash (q\<lparr>sighash := h\<rparr>) = Inr () \<Longrightarrow> check_sighash (q\<lparr>sighash := h'\<rparr>) = Inr () \<Longrightarrow>
   sign_tx_input S fp acct i (q\<lparr>sighash := h\<rparr>) t = sign_tx_input S fp acct i (q\<lparr>sighash := h'\<rparr>) t"
  by (simp add: sign_tx_input_def split: sum.split prod.split)

text \<open>
  C9.  A PSBT with an input whose sighash is present and neither 0 nor 1 makes \<open>sign_tx\<close>
  fail without calling \<open>btc_sign\<close>; when the inputs before it were translated, the error
  is the bad-argument error naming that sighash.  An absent sighash and the sighash 0 pass
  the check, and such an input is translated exactly as with sighash 1.
\<close>

theorem sighash_other_than_all_rejected:
  "((p, t) \<in> set (zip_inputs psbt) \<and> sighash p = Some h \<and> h \<noteq> 0 \<and> h \<noteq> 1
     \<longrightarrow> (\<exists>e. sign_tx S btc_sign G fp net psbt = ([], Inl e)))
   \<and> (j < length (zip_inputs psbt) \<and> zip_inputs psbt ! j = (psbt_in, tx_in)
     \<and> sign_tx_inputs S fp None 0 (take j (zip_inputs psbt)) = Inr (a, ins, pks)
     \<and> sighash psbt_in = Some h \<and> h \<noteq> 0 \<and> h \<noteq> 1
     \<longrightarrow> sign_tx S btc_sign G fp net psbt = ([], Inl (BadArgumentError (Sighash_not_all h))))
   \<and> check_sighash (q\<lparr>sighash := None\<rparr>) = Inr ()
   \<and> check_sighash (q\<lparr>sighash := Some 0\<rparr>) = Inr ()
   \<and> check_sighash (q\<lparr>sighash := Some 1\<rparr>) = Inr ()
   \<and> sign_tx_input S fp acct i (q\<lparr>sighash := None\<rparr>) u
       = sign_tx_input S fp acct i (q\<lparr>sighash := Some 1\<rparr>) u
   \<and> sign_tx_input S fp acct i (q\<lparr>sighash := Some 0\<rparr>) u
       = sign_tx_input S fp acct i (q\<lparr>sighash := Some 1\<rparr>) u"
proof (intro conjI impI)
  assume "(p, t) \<in> set (zip_inputs psbt) \<and> sighash p = Some h \<and> h \<noteq> 0 \<and> h \<noteq> 1"
  then obtain e where "sign_tx_inputs S fp None 0 (zip_inputs psbt) = Inl e"
    using sign_tx_inputs_bad_sighash [of p t "zip_inputs psbt" h S fp None 0] by blast
  then have "sign_tx S btc_sign G fp net psbt = ([], Inl (bitbox02_exception G e))"
    by (intro sign_tx_no_call sign_tx_request_inputs_fail)
  then show "\<exists>e. sign_tx S btc_sign G fp net psbt = ([], Inl e)" by blast
next
  assume h: "j < length (zip_inputs psbt) \<and> zip_inputs psbt ! j = (psbt_in, tx_in)
     \<and> sign_tx_inputs S fp None 0 (take j (zip_inputs psbt)) = Inr (a, ins, pks)
     \<and> sighash psbt_in = Some h \<and> h \<noteq> 0 \<and> h \<noteq> 1"
  then have "sign_tx_input S fp a j psbt_in tx_in = Inl (BadArgumentError (Sighash_not_all h))"
    by (simp add: sign_tx_input_def check_sighash_def)
  with h have "sign_tx S btc_sign G fp net psbt
      = ([], Inl (bitbox02_exception G (BadArgumentError (Sighash_not_all h))))"
    by (intro sign_tx_input_fails_at) auto
  then show "sign_tx S btc_sign G fp net psbt = ([], Inl (BadArgumentError (Sighash_not_all h)))"
    by simp
next
  show "check_sighash (q\<lparr>sighash := None\<rparr>) = Inr ()"
    "check_sighash (q\<lparr>sighash := Some 0\<rparr>) = Inr ()"
    "check_sighash (q\<lparr>sighash := Some 1\<rparr>) = Inr ()"
    by (simp_all add: check_sighash_def)
next
  show "sign_tx_input S fp acct i (q\<lparr>sighash := None\<rparr>) u
       = sign_tx_input S fp acct i (q\<lparr>sighash := Some 1\<rparr>) u"
    by (rule sign_tx_input_sighash) (simp_all add: check_sighash_def)
next
  show "sign_tx_input S fp acct i (q\<lparr>sighash := Some 0\<rparr>) u
       = sign_tx_input S fp acct i (q\<lparr>sighash := Some 1\<rparr>) u"
    by (rule sign_tx_input_sighash) (simp_all add: check_sighash_def)
qed

text \<open>One input with sighash 3 (SIGHASH_SINGLE).\<close>

definition example_sighash_single :: PSBT where
  "example_sighash_single =
     example_psbt [(example_input [84 + HARDENED, HARDENED, HARDENED, 0, 0])\<lparr>sighash := Some 3\<rparr>] []"

theorem sighash_other_than_all_rejected_witness:
  "sign_tx example_serializations example_btc_sign 103 example_fp False example_sighash_single
     = ([], Inl (BadArgumentError (Sighash_not_all 3)))"
proof -
  let ?p = example_sighash_single
  let ?in0 = "(example_input [84 + HARDENED, HARDENED, HARDENED, 0, 0])\<lparr>sighash := Some 3\<rparr>"
  have zs: "zip_inputs ?p = [(?in0, example_txin)]"
    by (simp add: example_sighash_single_def example_psbt_def)
  have j: "0 < length (zip_inputs ?p)" by (simp add: zs)
  have nth: "zip_inputs ?p ! 0 = (?in0, example_txin)" by (simp add: zs)
  have pre: "sign_tx_inputs example_serializations example_fp None 0 (take 0 (zip_inputs ?p))
      = Inr (None, [], [])" by simp
  have sh: "sighash ?in0 = Some 3" by simp
  from sighash_other_than_all_rejected
    [of ?in0 example_txin ?p 3 example_serializations example_btc_sign 103 example_fp False
        0 ?in0 example_txin None "[]" "[]"]
  show ?thesis
    using j nth pre sh by simp
qed

lemma sign_tx_output_fails_at:
  assumes "sign_tx_inputs S fp None 0 (zip_inputs psbt) = Inr st"
    and "k < length (zip_outputs psbt)"
    and "zip_outputs psbt ! k = (p, t)"
    and "sign_tx_outputs S fp (length (zip_inputs psbt)) 0 (take k (zip_outputs psbt)) = Inr outs"
    and "sign_tx_output S fp (length (zip_inputs psbt)) k p t = Inl e"
  shows "sign_tx S btc_sign G fp net psbt = ([], Inl (bitbox02_exception G e))"
proof -
  from assms(3,5)
  have "sign_tx_output S fp (length (zip_inputs psbt)) k
          (fst (zip_outputs psbt ! k)) (snd (zip_outputs psbt ! k)) = Inl e"
    by simp
  from sign_tx_outputs_fail_at [OF assms(2) assms(4) this]
  have "sign_tx_outputs S fp (length (zip_inputs psbt)) 0 (zip_outputs psbt) = Inl e" .
  from sign_tx_request_outputs_fail [OF assms(1) this]
  show ?thesis by (rule sign_tx_no_call)
qed

text \<open>
  C10.  The length of a matched path is not validated.  An input that passes the checks
  before the account comparison and whose matched path (after the fingerprint) has fewer
  than 3 elements makes \<open>sign_tx\<close> fail with \<open>IndexError\<close>, from \<open>keypath[2]\<close>; an output
  whose matched path has exactly one element makes it fail with \<open>IndexError\<close>, from
  \<open>keypath[-2]\<close>.  Neither is a bad-argument error, and \<open>btc_sign\<close> is not called.
\<close>

theorem short_keypath_index_error:
  "(j < length (zip_inputs psbt) \<and> zip_inputs psbt ! j = (psbt_in, tx_in)
     \<and> sign_tx_inputs S fp None 0 (take j (zip_inputs psbt)) = Inr (a, ins, pks)
     \<and> check_sighash psbt_in = Inr ()
     \<and> previous_output j psbt_in tx_in = Inr (utxo, prevtx)
     \<and> find_our_key fp (hd_keypaths psbt_in) = Inr (Some pk, Some kp)
     \<and> pk \<noteq> [] \<and> length kp < 3
     \<longrightarrow> sign_tx S btc_sign G fp net psbt = ([], Inl IndexError))
   \<and> (sign_tx_inputs S fp None 0 (zip_inputs psbt) = Inr st
     \<and> k < length (zip_outputs psbt) \<and> zip_outputs psbt ! k = (psbt_out, tx_out)
     \<and> sign_tx_outputs S fp (length (zip_inputs psbt)) 0 (take k (zip_outputs psbt)) = Inr outs
     \<and> find_our_key fp (out_hd_keypaths psbt_out) = Inr (opk, Some [x])
     \<longrightarrow> sign_tx S btc_sign G fp net psbt = ([], Inl IndexError))"
proof (intro conjI impI)
  assume h: "j < length (zip_inputs psbt) \<and> zip_inputs psbt ! j = (psbt_in, tx_in)
     \<and> sign_tx_inputs S fp None 0 (take j (zip_inputs psbt)) = Inr (a, ins, pks)
     \<and> check_sighash psbt_in = Inr ()
     \<and> previous_output j psbt_in tx_in = Inr (utxo, prevtx)
     \<and> find_our_key fp (hd_keypaths psbt_in) = Inr (Some pk, Some kp)
     \<and> pk \<noteq> [] \<and> length kp < 3"
  then have "sign_tx_input S fp a j psbt_in tx_in = Inl IndexError"
    by (simp add: sign_tx_input_def our_input_key_def check_account_def)
  with h have "sign_tx S btc_sign G fp net psbt = ([], Inl (bitbox02_exception G IndexError))"
    by (intro sign_tx_input_fails_at) auto
  then show "sign_tx S btc_sign G fp net psbt = ([], Inl IndexError)" by simp
next
  assume h: "sign_tx_inputs S fp None 0 (zip_inputs psbt) = Inr st
     \<and> k < length (zip_outputs psbt) \<and> zip_outputs psbt ! k = (psbt_out, tx_out)
     \<and> sign_tx_outputs S fp (length (zip_inputs psbt)) 0 (take k (zip_outputs psbt)) = Inr outs
     \<and> find_our_key fp (out_hd_keypaths psbt_out) = Inr (opk, Some [x])"
  then have "sign_tx_output S fp (length (zip_inputs psbt)) k psbt_out tx_out = Inl IndexError"
    by (simp add: sign_tx_output_def)
  with h have "sign_tx S btc_sign G fp net psbt = ([], Inl (bitbox02_exception G IndexError))"
    by (intro sign_tx_output_fails_at) auto
  then show "sign_tx S btc_sign G fp net psbt = ([], Inl IndexError)" by simp
qed


text \<open>
  An input whose path has two elements; and a valid input with an output whose path has
  one element.
\<close>

definition example_short_input_path :: PSBT where
  "example_short_input_path = example_psbt [example_input [84 + HARDENED, HARDENED]] []"

definition example_short_output_path :: PSBT where
  "example_short_output_path =
     example_psbt [example_input [84 + HARDENED, HARDENED, HARDENED, 0, 0]]
       [\<lparr>out_redeem_script = [], out_hd_keypaths = [([0x03, 0x22], [example_fp, 1])]\<rparr>]"

lemma example_one_input_ok:
  "\<exists>inp. sign_tx_inputs example_serializations example_fp None 0
       [(example_input [84 + HARDENED, HARDENED, HARDENED, 0, 0], example_txin)]
     = Inr (Some HARDENED, [inp], [[0x02, 0x11]])"
  using example_input_ok [of 0] by auto

theorem short_keypath_index_error_witness:
  "sign_tx example_serializations example_btc_sign 103 example_fp False example_short_input_path
     = ([], Inl IndexError)
   \<and> sign_tx example_serializations example_btc_sign 103 example_fp False example_short_output_path
     = ([], Inl IndexError)"
proof -
  let ?S = example_serializations
  let ?p = example_short_input_path
  let ?in0 = "example_input [84 + HARDENED, HARDENED]"
  have zs: "zip_inputs ?p = [(?in0, example_txin)]"
    by (simp add: example_short_input_path_def example_psbt_def)
  have j: "0 < length (zip_inputs ?p)" and nth: "zip_inputs ?p ! 0 = (?in0, example_txin)"
    by (simp_all add: zs)
  have pre: "sign_tx_inputs ?S example_fp None 0 (take 0 (zip_inputs ?p)) = Inr (None, [], [])"
    by simp
  have sh: "check_sighash ?in0 = Inr ()" by (simp add: example_defs)
  have po: "previous_output 0 ?in0 example_txin
      = Inr (\<lparr>nValue = 5000, scriptPubKey = example_p2wpkh\<rparr>, example_prevtx)"
    by (simp add: example_defs)
  have key: "find_our_key example_fp (hd_keypaths ?in0)
      = Inr (Some [0x02, 0x11], Some [84 + HARDENED, HARDENED])"
    by (simp add: example_defs)
  have ne: "[0x02, 0x11 :: byte] \<noteq> []" and short: "length [84 + HARDENED, HARDENED] < 3"
    by simp_all
  have one: "sign_tx ?S example_btc_sign 103 example_fp False ?p = ([], Inl IndexError)"
    using short_keypath_index_error
      [of 0 ?p ?in0 example_txin ?S example_fp None "[]" "[]" _ _ "[0x02, 0x11]"
          "[84 + HARDENED, HARDENED]" example_btc_sign 103 False]
      j nth pre sh po key ne short by blast
  let ?q = example_short_output_path
  let ?out0 = "\<lparr>out_redeem_script = [], out_hd_keypaths = [([0x03, 0x22], [example_fp, 1])]\<rparr>"
  let ?txout = "\<lparr>nValue = 4000, scriptPubKey = example_p2wpkh\<rparr>"
  have zq: "zip_inputs ?q = [(example_input [84 + HARDENED, HARDENED, HARDENED, 0, 0], example_txin)]"
    by (simp add: example_short_output_path_def example_psbt_def)
  have zo: "zip_outputs ?q = [(?out0, ?txout)]"
    by (simp add: example_short_output_path_def example_psbt_def)
  from example_one_input_ok obtain inp where
    ins: "sign_tx_inputs ?S example_fp None 0 (zip_inputs ?q) = Inr (Some HARDENED, [inp], [[0x02, 0x11]])"
    unfolding zq by blast
  have k: "0 < length (zip_outputs ?q)" and nthq: "zip_outputs ?q ! 0 = (?out0, ?txout)"
    by (simp_all add: zo)
  have preo: "sign_tx_outputs ?S example_fp (length (zip_inputs ?q)) 0 (take 0 (zip_outputs ?q)) = Inr []"
    by simp
  have keyo: "find_our_key example_fp (out_hd_keypaths ?out0) = Inr (Some [0x03, 0x22], Some [1])"
    by simp
  have two: "sign_tx ?S example_btc_sign 103 example_fp False ?q = ([], Inl IndexError)"
    using short_keypath_index_error
      [of _ ?q _ _ ?S example_fp _ _ _ _ _ _ _ example_btc_sign 103 False
          "(Some HARDENED, [inp], [[0x02, 0x11]])" 0 ?out0 ?txout "[]" "Some [0x03, 0x22]" 1]
      ins k nthq preo keyo by blast
  from one two show ?thesis by blast
qed

text \<open>
  C1 (amended).  For input \<open>j\<close> of a PSBT, reached with the inputs before it translated and
  its sighash accepted: with neither \<open>non_witness_utxo\<close> nor \<open>witness_utxo\<close>, \<open>sign_tx\<close>
  fails with the bad-argument error "No utxo found"; with \<open>witness_utxo\<close> alone it does
  not proceed but fails with the bad-argument error "Previous transaction missing"; with
  a \<open>non_witness_utxo\<close> whose hash differs from the input's previous-output hash it fails
  with the bad-argument error about the wrong hash.  Whenever a request is built, the
  hash of the \<open>non_witness_utxo\<close> matched, and the value and the previous transaction sent
  for input \<open>j\<close> are those of its output \<open>prevout.n\<close>.
\<close>

theorem previous_output_resolution:
  assumes "j < length (zip_inputs psbt)" and "zip_inputs psbt ! j = (psbt_in, tx_in)"
  shows "(sign_tx_inputs S fp None 0 (take j (zip_inputs psbt)) = Inr (a, ins, pks)
          \<and> check_sighash psbt_in = Inr ()
          \<and> non_witness_utxo psbt_in = None \<and> witness_utxo psbt_in = None
          \<longrightarrow> sign_tx S btc_sign G fp net psbt = ([], Inl (BadArgumentError (No_utxo_found j))))
       \<and> (sign_tx_inputs S fp None 0 (take j (zip_inputs psbt)) = Inr (a, ins, pks)
          \<and> check_sighash psbt_in = Inr ()
          \<and> non_witness_utxo psbt_in = None \<and> witness_utxo psbt_in = Some u
          \<longrightarrow> sign_tx S btc_sign G fp net psbt
                = ([], Inl (BadArgumentError (Previous_transaction_missing j))))
       \<and> (sign_tx_inputs S fp None 0 (take j (zip_inputs psbt)) = Inr (a, ins, pks)
          \<and> check_sighash psbt_in = Inr ()
          \<and> non_witness_utxo psbt_in = Some ptx \<and> prevout_hash (prevout tx_in) \<noteq> sha256 ptx
          \<longrightarrow> sign_tx S btc_sign G fp net psbt = ([], Inl (BadArgumentError (Wrong_prevtx_hash j))))
       \<and> (non_witness_utxo psbt_in = Some ptx
          \<and> sign_tx_request S fp net psbt = Inr (call, found_pubkeys)
          \<longrightarrow> prevout_hash (prevout tx_in) = sha256 ptx
              \<and> prevout_n (prevout tx_in) < length (vout ptx)
              \<and> prev_out_value (sign_inputs call ! j) = nValue (vout ptx ! prevout_n (prevout tx_in))
              \<and> prev_tx (sign_inputs call ! j) = prev_tx_of S ptx)"
proof (intro conjI impI)
  assume h: "sign_tx_inputs S fp None 0 (take j (zip_inputs psbt)) = Inr (a, ins, pks)
          \<and> check_sighash psbt_in = Inr ()
          \<and> non_witness_utxo psbt_in = None \<and> witness_utxo psbt_in = None"
  then have "sign_tx_input S fp a j psbt_in tx_in = Inl (BadArgumentError (No_utxo_found j))"
    by (simp add: sign_tx_input_def previous_output_def)
  with h assms have "sign_tx S btc_sign G fp net psbt
      = ([], Inl (bitbox02_exception G (BadArgumentError (No_utxo_found j))))"
    by (intro sign_tx_input_fails_at) auto
  then show "sign_tx S btc_sign G fp net psbt = ([], Inl (BadArgumentError (No_utxo_found j)))"
    by simp
next
  assume h: "sign_tx_inputs S fp None 0 (take j (zip_inputs psbt)) = Inr (a, ins, pks)
          \<and> check_sighash psbt_in = Inr ()
          \<and> non_witness_utxo psbt_in = None \<and> witness_utxo psbt_in = Some u"
  then have "sign_tx_input S fp a j psbt_in tx_in
      = Inl (BadArgumentError (Previous_transaction_missing j))"
    by (simp add: sign_tx_input_def previous_output_def)
  with h assms have "sign_tx S btc_sign G fp net psbt
      = ([], Inl (bitbox02_exception G (BadArgumentError (Previous_transaction_missing j))))"
    by (intro sign_tx_input_fails_at) auto
  then show "sign_tx S btc_sign G fp net psbt
      = ([], Inl (BadArgumentError (Previous_transaction_missing j)))"
    by simp
next
  assume h: "sign_tx_inputs S fp None 0 (take j (zip_inputs psbt)) = Inr (a, ins, pks)
          \<and> check_sighash psbt_in = Inr ()
          \<and> non_witness_utxo psbt_in = Some ptx \<and> prevout_hash (prevout tx_in) \<noteq> sha256 ptx"
  then have "sign_tx_input S fp a j psbt_in tx_in = Inl (BadArgumentError (Wrong_prevtx_hash j))"
    by (simp add: sign_tx_input_def previous_output_def)
  with h assms have "sign_tx S btc_sign G fp net psbt
      = ([], Inl (bitbox02_exception G (BadArgumentError (Wrong_prevtx_hash j))))"
    by (intro sign_tx_input_fails_at) auto
  then show "sign_tx S btc_sign G fp net psbt = ([], Inl (BadArgumentError (Wrong_prevtx_hash j)))"
    by simp
next
  assume h: "non_witness_utxo psbt_in = Some ptx
          \<and> sign_tx_request S fp net psbt = Inr (call, found_pubkeys)"
  then obtain account where
    "sign_tx_inputs S fp None 0 (zip_inputs psbt) = Inr (Some account, sign_inputs call, found_pubkeys)"
    using sign_tx_request_Inr by blast
  from sign_tx_inputs_Inr [OF this] assms obtain acct' account' where
    "sign_tx_input S fp acct' (0 + j) psbt_in tx_in
       = Inr (account', sign_inputs call ! j, found_pubkeys ! j)"
    by fastforce
  from sign_tx_input_Inr [OF this] obtain utxo prevtx where
    po: "previous_output (0 + j) psbt_in tx_in = Inr (utxo, prevtx)" and
    v: "prev_out_value (sign_inputs call ! j) = nValue utxo" and
    t: "prev_tx (sign_inputs call ! j) = prev_tx_of S prevtx"
    by auto
  from previous_output_Inr [OF po] h have
    "prevtx = ptx" "prevout_hash (prevout tx_in) = sha256 ptx"
    "prevout_n (prevout tx_in) < length (vout ptx)"
    "utxo = vout ptx ! prevout_n (prevout tx_in)"
    by auto
  with v t show "prevout_hash (prevout tx_in) = sha256 ptx"
    "prevout_n (prevout tx_in) < length (vout ptx)"
    "prev_out_value (sign_inputs call ! j) = nValue (vout ptx ! prevout_n (prevout tx_in))"
    "prev_tx (sign_inputs call ! j) = prev_tx_of S ptx"
    by simp_all
qed


section \<open>\<open>sign_tx\<close>: previous outputs, script configurations and outputs\<close>

text \<open>
  An input that carries only a \<open>witness_utxo\<close>; and two native-segwit inputs of one
  account with one output that is not the signer's.
\<close>

definition example_witness_utxo_only :: PSBT where
  "example_witness_utxo_only =
     example_psbt
       [(example_input [84 + HARDENED, HARDENED, HARDENED, 0, 0])
          \<lparr>non_witness_utxo := None,
           witness_utxo := Some \<lparr>nValue = 5000, scriptPubKey = example_p2wpkh\<rparr>\<rparr>] []"

definition example_native_segwit :: PSBT where
  "example_native_segwit =
     example_psbt [example_input [84 + HARDENED, HARDENED, HARDENED, 0, 0],
                   example_input [84 + HARDENED, HARDENED, HARDENED, 0, 1]]
       [\<lparr>out_redeem_script = [], out_hd_keypaths = []\<rparr>]"

lemma example_input_translated:
  "sign_tx_input example_serializations example_fp acct j
     (example_input [84 + HARDENED, HARDENED, HARDENED, 0, i]) example_txin
   = (if acct = None \<or> acct = Some HARDENED
      then Inr (HARDENED,
        \<lparr>prev_out_hash = ser_uint256 example_serializations 77, prev_out_index = 0,
         prev_out_value = 5000, in_sequence = 4294967295,
         in_keypath = [84 + HARDENED, HARDENED, HARDENED, 0, i],
         in_script_config_index = 0,
         prev_tx = prev_tx_of example_serializations example_prevtx\<rparr>, [0x02, 0x11])
      else Inl (BadArgumentError Account_index_differs))"
  by (cases acct) (simp_all add: sign_tx_input_def check_sighash_def previous_output_def
      our_input_key_def check_account_def get_simple_type_def example_input_def
      example_txin_def example_prevtx_def example_p2wpkh_def example_fp_def
      example_serializations_def [THEN arg_cong [where f = is_p2pkh]]
      example_serializations_def [THEN arg_cong [where f = is_p2wpkh]])


lemmas example_predicates =
  example_serializations_def [THEN arg_cong [where f = is_p2pkh]]
  example_serializations_def [THEN arg_cong [where f = is_p2wpkh]]
  example_serializations_def [THEN arg_cong [where f = is_p2sh]]
  example_serializations_def [THEN arg_cong [where f = is_p2wsh]]
  example_serializations_def [THEN arg_cong [where f = CTxOut_is_p2pkh]]
  example_serializations_def [THEN arg_cong [where f = CTxOut_is_p2sh]]

text \<open>
  C1 as stated fails: an input with a \<open>witness_utxo\<close> and no \<open>non_witness_utxo\<close> does not
  let \<open>sign_tx\<close> proceed; it fails with "Previous transaction missing", and \<open>btc_sign\<close> is
  not called.
\<close>

theorem witness_utxo_alone_counterexample:
  "non_witness_utxo (inputs example_witness_utxo_only ! 0) = None
   \<and> witness_utxo (inputs example_witness_utxo_only ! 0)
       = Some \<lparr>nValue = 5000, scriptPubKey = example_p2wpkh\<rparr>
   \<and> sign_tx example_serializations example_btc_sign 103 example_fp False example_witness_utxo_only
       = ([], Inl (BadArgumentError (Previous_transaction_missing 0)))"
proof -
  let ?p = example_witness_utxo_only
  let ?in0 = "(example_input [84 + HARDENED, HARDENED, HARDENED, 0, 0])
          \<lparr>non_witness_utxo := None,
           witness_utxo := Some \<lparr>nValue = 5000, scriptPubKey = example_p2wpkh\<rparr>\<rparr>"
  have zs: "zip_inputs ?p = [(?in0, example_txin)]"
    by (simp add: example_witness_utxo_only_def example_psbt_def)
  have "sign_tx_input example_serializations example_fp None 0 ?in0 example_txin
      = Inl (BadArgumentError (Previous_transaction_missing 0))"
    by (simp add: sign_tx_input_def check_sighash_def previous_output_def example_input_def)
  then have "sign_tx_request example_serializations example_fp False ?p
      = Inl (BadArgumentError (Previous_transaction_missing 0))"
    by (simp add: sign_tx_request_def zs)
  then have "sign_tx example_serializations example_btc_sign 103 example_fp False ?p
       = ([], Inl (BadArgumentError (Previous_transaction_missing 0)))"
    by (simp add: sign_tx_def)
  moreover have "non_witness_utxo (inputs ?p ! 0) = None"
    "witness_utxo (inputs ?p ! 0) = Some \<lparr>nValue = 5000, scriptPubKey = example_p2wpkh\<rparr>"
    by (simp_all add: example_witness_utxo_only_def example_psbt_def)
  ultimately show ?thesis by blast
qed

lemma example_native_segwit_request:
  "sign_tx_request example_serializations example_fp False example_native_segwit =
     Inr (\<lparr>sign_coin = BTC,
           script_configs =
             [\<lparr>script_config = SimpleType_P2WPKH,
               config_keypath = [84 + HARDENED, 0 + HARDENED, HARDENED]\<rparr>,
              \<lparr>script_config = SimpleType_P2WPKH_P2SH,
               config_keypath = [49 + HARDENED, 0 + HARDENED, HARDENED]\<rparr>],
           sign_inputs =
             [\<lparr>prev_out_hash = ser_uint256 example_serializations 77, prev_out_index = 0,
               prev_out_value = 5000, in_sequence = 4294967295,
               in_keypath = [84 + HARDENED, HARDENED, HARDENED, 0, 0],
               in_script_config_index = 0,
               prev_tx = prev_tx_of example_serializations example_prevtx\<rparr>,
              \<lparr>prev_out_hash = ser_uint256 example_serializations 77, prev_out_index = 0,
               prev_out_value = 5000, in_sequence = 4294967295,
               in_keypath = [84 + HARDENED, HARDENED, HARDENED, 0, 1],
               in_script_config_index = 0,
               prev_tx = prev_tx_of example_serializations example_prevtx\<rparr>],
           sign_outputs = [BTCOutputExternal P2WPKH (replicate 20 0xAB) 4000],
           sign_locktime = 0, sign_version = 2\<rparr>,
          [[0x02, 0x11], [0x02, 0x11]])"
proof -
  have zs: "zip_inputs example_native_segwit =
      [(example_input [84 + HARDENED, HARDENED, HARDENED, 0, 0], example_txin),
       (example_input [84 + HARDENED, HARDENED, HARDENED, 0, 1], example_txin)]"
    by (simp add: example_native_segwit_def example_psbt_def)
  have zo: "zip_outputs example_native_segwit =
      [(\<lparr>out_redeem_script = [], out_hd_keypaths = []\<rparr>,
        \<lparr>nValue = 4000, scriptPubKey = example_p2wpkh\<rparr>)]"
    by (simp add: example_native_segwit_def example_psbt_def)
  have out: "sign_tx_output example_serializations example_fp n 0
      \<lparr>out_redeem_script = [], out_hd_keypaths = []\<rparr>
      \<lparr>nValue = 4000, scriptPubKey = example_p2wpkh\<rparr>
      = Inr (BTCOutputExternal P2WPKH (replicate 20 0xAB) 4000)" for n
    by (simp add: sign_tx_output_def example_predicates example_p2wpkh_def)
  have tx: "nLockTime (tx example_native_segwit) = 0" "nVersion (tx example_native_segwit) = 2"
    by (simp_all add: example_native_segwit_def example_psbt_def)
  show ?thesis
    unfolding sign_tx_request_def zs zo
    by (simp add: example_input_translated out tx)
qed

text \<open>
  C2 as stated fails: for a transaction whose two inputs are both native segwit (script
  configuration index 0), the request has two script configurations, not one.
\<close>

theorem one_descriptor_counterexample:
  "map_sum id (\<lambda>(call, found_pubkeys).
       (map script_config (script_configs call), map in_script_config_index (sign_inputs call)))
     (sign_tx_request example_serializations example_fp False example_native_segwit)
   = Inr ([SimpleType_P2WPKH, SimpleType_P2WPKH_P2SH], [0, 0])"
  by (simp add: example_native_segwit_request)


theorem previous_output_resolution_witness:
  "sign_tx example_serializations example_btc_sign 103 example_fp False example_witness_utxo_only
     = ([], Inl (BadArgumentError (Previous_transaction_missing 0)))
   \<and> prev_out_value
        (sign_inputs (fst (projr (sign_tx_request example_serializations example_fp False
           example_native_segwit))) ! 1) = 5000"
proof -
  let ?S = example_serializations
  let ?p = example_witness_utxo_only
  let ?in0 = "(example_input [84 + HARDENED, HARDENED, HARDENED, 0, 0])
          \<lparr>non_witness_utxo := None,
           witness_utxo := Some \<lparr>nValue = 5000, scriptPubKey = example_p2wpkh\<rparr>\<rparr>"
  have zs: "zip_inputs ?p = [(?in0, example_txin)]"
    by (simp add: example_witness_utxo_only_def example_psbt_def)
  have j: "0 < length (zip_inputs ?p)" and nth: "zip_inputs ?p ! 0 = (?in0, example_txin)"
    by (simp_all add: zs)
  have pre: "sign_tx_inputs ?S example_fp None 0 (take 0 (zip_inputs ?p)) = Inr (None, [], [])"
    by simp
  have sh: "check_sighash ?in0 = Inr ()"
    by (simp add: check_sighash_def example_input_def)
  have nw: "non_witness_utxo ?in0 = None"
    and w: "witness_utxo ?in0 = Some \<lparr>nValue = 5000, scriptPubKey = example_p2wpkh\<rparr>"
    by simp_all
  have one: "sign_tx ?S example_btc_sign 103 example_fp False ?p
     = ([], Inl (BadArgumentError (Previous_transaction_missing 0)))"
    using previous_output_resolution [OF j nth, where S = ?S and fp = example_fp and a = None
        and ins = "[]" and pks = "[]" and btc_sign = example_btc_sign and G = 103 and net = False]
      pre sh nw w
    by blast
  let ?q = example_native_segwit
  let ?in1 = "example_input [84 + HARDENED, HARDENED, HARDENED, 0, 1]"
  obtain call pks where req: "sign_tx_request ?S example_fp False ?q = Inr (call, pks)"
    using example_native_segwit_request by blast
  have k: "1 < length (zip_inputs ?q)" and nthq: "zip_inputs ?q ! 1 = (?in1, example_txin)"
    by (simp_all add: example_native_segwit_def example_psbt_def)
  have nwq: "non_witness_utxo ?in1 = Some example_prevtx"
    by (simp add: example_input_def)
  from previous_output_resolution [OF k nthq, where ptx = example_prevtx and S = ?S
      and fp = example_fp and net = False and call = call and found_pubkeys = pks] nwq req
  have "prev_out_value (sign_inputs call ! 1)
      = nValue (vout example_prevtx ! prevout_n (prevout example_txin))"
    by blast
  then have two: "prev_out_value (sign_inputs (fst (projr (sign_tx_request ?S example_fp False ?q))) ! 1)
      = 5000"
    by (simp add: req example_prevtx_def example_txin_def)
  from one two show ?thesis by blast
qed

lemma sign_tx_inputs_Some_nonempty:
  "sign_tx_inputs S fp None i zs = Inr (Some account, ins, pks) \<Longrightarrow> zs \<noteq> []"
  by (cases zs) simp_all

text \<open>
  C2 (amended).  Every request that \<open>sign_tx\<close> builds has exactly two script
  configurations, in this order and whatever the script types of the inputs: P2WPKH with
  the path \<open>[84', coin', account]\<close> and P2WPKH-P2SH with the path \<open>[49', coin', account]\<close>,
  where \<open>coin'\<close> is \<open>1'\<close> on testnet and \<open>0'\<close> otherwise and \<open>account\<close> is the account
  component of the matched path of every input.  There is at least one input, every
  input's script configuration index points into the list, and the request is the one
  call made to \<open>btc_sign\<close>.
\<close>

theorem two_script_configs:
  assumes "sign_tx_request S fp net psbt = Inr (call, found_pubkeys)"
  shows "\<exists>account.
           script_configs call =
             [\<lparr>script_config = SimpleType_P2WPKH,
               config_keypath = [84 + HARDENED, if net then 1 + HARDENED else 0 + HARDENED, account]\<rparr>,
              \<lparr>script_config = SimpleType_P2WPKH_P2SH,
               config_keypath = [49 + HARDENED, if net then 1 + HARDENED else 0 + HARDENED, account]\<rparr>]
         \<and> zip_inputs psbt \<noteq> []
         \<and> (\<forall>(psbt_in, tx_in) \<in> set (zip_inputs psbt).
               \<exists>pk kp. find_our_key fp (hd_keypaths psbt_in) = Inr (Some pk, Some kp)
                 \<and> 2 < length kp \<and> kp ! 2 = account)
         \<and> (\<forall>inp \<in> set (sign_inputs call).
               in_script_config_index inp < length (script_configs call))
         \<and> fst (sign_tx S btc_sign G fp net psbt) = [call]"
proof -
  from sign_tx_request_Inr [OF assms] obtain account where
    ins: "sign_tx_inputs S fp None 0 (zip_inputs psbt)
            = Inr (Some account, sign_inputs call, found_pubkeys)" and
    cfg: "script_configs call =
             [\<lparr>script_config = SimpleType_P2WPKH,
               config_keypath = [84 + HARDENED, if net then 1 + HARDENED else 0 + HARDENED, account]\<rparr>,
              \<lparr>script_config = SimpleType_P2WPKH_P2SH,
               config_keypath = [49 + HARDENED, if net then 1 + HARDENED else 0 + HARDENED, account]\<rparr>]"
    by blast
  have ne: "zip_inputs psbt \<noteq> []"
    using ins by (rule sign_tx_inputs_Some_nonempty)
  have keys: "\<forall>(psbt_in, tx_in) \<in> set (zip_inputs psbt).
               \<exists>pk kp. find_our_key fp (hd_keypaths psbt_in) = Inr (Some pk, Some kp)
                 \<and> 2 < length kp \<and> kp ! 2 = account"
  proof (clarify)
    fix p t assume "(p, t) \<in> set (zip_inputs psbt)"
    from sign_tx_inputs_Inr_set [OF ins this]
    show "\<exists>pk kp. find_our_key fp (hd_keypaths p) = Inr (Some pk, Some kp)
                 \<and> 2 < length kp \<and> kp ! 2 = account"
      by auto
  qed
  have idx: "\<forall>inp \<in> set (sign_inputs call).
               in_script_config_index inp < length (script_configs call)"
  proof
    fix inp assume "inp \<in> set (sign_inputs call)"
    then obtain j where j: "j < length (sign_inputs call)" and inp: "inp = sign_inputs call ! j"
      by (auto simp: in_set_conv_nth)
    from sign_tx_inputs_Inr [OF ins] j obtain acct' account' where
      "sign_tx_input S fp acct' (0 + j) (fst (zip_inputs psbt ! j)) (snd (zip_inputs psbt ! j))
         = Inr (account', sign_inputs call ! j, found_pubkeys ! j)"
      by fastforce
    from sign_tx_input_Inr [OF this] obtain st where
      "in_script_config_index (sign_inputs call ! j) = script_config_index_map st"
      by auto
    then show "in_script_config_index inp < length (script_configs call)"
      by (cases st) (simp_all add: inp cfg)
  qed
  from cfg ne keys idx sign_tx_calls [OF assms, of btc_sign G] show ?thesis by blast
qed

theorem two_script_configs_witness:
  "map script_config (script_configs (fst (projr (sign_tx_request example_serializations
       example_fp False example_native_segwit))))
     = [SimpleType_P2WPKH, SimpleType_P2WPKH_P2SH]
   \<and> map (length \<circ> sign_inputs)
       (fst (sign_tx example_serializations example_btc_sign 103 example_fp False
          example_native_segwit)) = [2]"
proof -
  obtain call pks where req:
    "sign_tx_request example_serializations example_fp False example_native_segwit = Inr (call, pks)"
    and n: "length (sign_inputs call) = 2"
    using example_native_segwit_request by simp
  from two_script_configs [OF req, of example_btc_sign 103] obtain account where
    "script_configs call =
       [\<lparr>script_config = SimpleType_P2WPKH,
         config_keypath = [84 + HARDENED, if False then 1 + HARDENED else 0 + HARDENED, account]\<rparr>,
        \<lparr>script_config = SimpleType_P2WPKH_P2SH,
         config_keypath = [49 + HARDENED, if False then 1 + HARDENED else 0 + HARDENED, account]\<rparr>]"
    and "fst (sign_tx example_serializations example_btc_sign 103 example_fp False
          example_native_segwit) = [call]"
    by blast
  with req n show ?thesis by simp
qed


lemma sign_tx_request_output:
  assumes "sign_tx_request S fp net psbt = Inr (call, found_pubkeys)"
    and "k < length (zip_outputs psbt)" and "zip_outputs psbt ! k = (psbt_out, tx_out)"
  shows "0 < length (zip_inputs psbt)
       \<and> sign_tx_output S fp (length (zip_inputs psbt)) k psbt_out tx_out
           = Inr (sign_outputs call ! k)"
proof -
  from sign_tx_request_Inr [OF assms(1)] obtain account where
    ins: "sign_tx_inputs S fp None 0 (zip_inputs psbt)
            = Inr (Some account, sign_inputs call, found_pubkeys)" and
    outs: "sign_tx_outputs S fp (length (zip_inputs psbt)) 0 (zip_outputs psbt)
            = Inr (sign_outputs call)"
    by blast
  from sign_tx_inputs_Some_nonempty [OF ins] have "0 < length (zip_inputs psbt)" by simp
  moreover from sign_tx_outputs_Inr [OF outs] assms(2,3)
  have "sign_tx_output S fp (length (zip_inputs psbt)) k psbt_out tx_out
           = Inr (sign_outputs call ! k)"
    by fastforce
  ultimately show ?thesis by blast
qed

lemma sign_tx_output_change:
  assumes "find_our_key fp (out_hd_keypaths psbt_out) = Inr (opk, Some kp)"
    and "2 \<le> length kp" and "kp ! (length kp - 2) = 1" and "0 < n"
    and "sign_tx_output S fp n k psbt_out tx_out = Inr out"
  shows "\<exists>st. get_simple_type S (Some (n - 1)) tx_out (out_redeem_script psbt_out) = Inr st
           \<and> out = BTCOutputInternal kp (nValue tx_out) (script_config_index_map st)"
  using assms by (auto simp: sign_tx_output_def split: sum.splits if_splits)

lemma sign_tx_output_external:
  assumes "find_our_key fp (out_hd_keypaths psbt_out) = Inr (opk, okp)"
    and "\<forall>kp. okp = Some kp \<longrightarrow> 2 \<le> length kp \<and> kp ! (length kp - 2) \<noteq> 1"
    and "sign_tx_output S fp n k psbt_out tx_out = Inr out"
  shows "out =
      (if CTxOut_is_p2pkh S tx_out
         then BTCOutputExternal P2PKH (take 20 (drop 3 (scriptPubKey tx_out))) (nValue tx_out)
       else if is_p2wpkh S (scriptPubKey tx_out)
         then BTCOutputExternal P2WPKH (drop 2 (scriptPubKey tx_out)) (nValue tx_out)
       else if CTxOut_is_p2sh S tx_out
         then BTCOutputExternal P2SH (take 20 (drop 2 (scriptPubKey tx_out))) (nValue tx_out)
       else BTCOutputExternal P2WSH (drop 2 (scriptPubKey tx_out)) (nValue tx_out))"
proof (cases okp)
  case None
  with assms(1,3) show ?thesis
    by (simp add: sign_tx_output_def split: if_splits)
next
  case (Some kp)
  with assms(2) have "2 \<le> length kp" "kp ! (length kp - 2) \<noteq> 1" by simp_all
  then have "kp \<noteq> []" "\<not> length kp < 2" by auto
  with assms(1,3) Some \<open>kp ! (length kp - 2) \<noteq> 1\<close> show ?thesis
    by (simp add: sign_tx_output_def split: if_splits)
qed

text \<open>
  C5 (amended).  In a request that \<open>sign_tx\<close> builds, take an output whose first key
  association matching the device's fingerprint, if there is one, has a path in the
  account of the inputs.  The output is sent as an internal (change) output exactly when
  that first matching association exists and the second-to-last element of its path is
  1; it is then described by that path, the value and the script configuration index of
  its script type.  Every other output is described externally by its type, the hash
  taken from its script, and its value.
\<close>

theorem output_classification:
  assumes "sign_tx_request S fp net psbt = Inr (call, found_pubkeys)"
    and "k < length (zip_outputs psbt)" and "zip_outputs psbt ! k = (psbt_out, tx_out)"
    and "find_our_key fp (out_hd_keypaths psbt_out) = Inr (opk, okp)"
    and "\<forall>kp. okp = Some kp \<longrightarrow>
           2 < length kp \<and> kp ! 2 = config_keypath (script_configs call ! 0) ! 2"
  shows "((\<exists>kp v idx. sign_outputs call ! k = BTCOutputInternal kp v idx)
          = (\<exists>kp. okp = Some kp \<and> kp ! (length kp - 2) = 1))
       \<and> (\<forall>kp. okp = Some kp \<and> kp ! (length kp - 2) = 1 \<longrightarrow>
             (\<exists>st. get_simple_type S (Some (length (zip_inputs psbt) - 1)) tx_out
                      (out_redeem_script psbt_out) = Inr st
                \<and> sign_outputs call ! k
                    = BTCOutputInternal kp (nValue tx_out) (script_config_index_map st)))
       \<and> (\<not> (\<exists>kp. okp = Some kp \<and> kp ! (length kp - 2) = 1) \<longrightarrow>
             sign_outputs call ! k =
               (if CTxOut_is_p2pkh S tx_out
                  then BTCOutputExternal P2PKH (take 20 (drop 3 (scriptPubKey tx_out))) (nValue tx_out)
                else if is_p2wpkh S (scriptPubKey tx_out)
                  then BTCOutputExternal P2WPKH (drop 2 (scriptPubKey tx_out)) (nValue tx_out)
                else if CTxOut_is_p2sh S tx_out
                  then BTCOutputExternal P2SH (take 20 (drop 2 (scriptPubKey tx_out))) (nValue tx_out)
                else BTCOutputExternal P2WSH (drop 2 (scriptPubKey tx_out)) (nValue tx_out)))"
proof -
  from sign_tx_request_output [OF assms(1-3)] have
    n: "0 < length (zip_inputs psbt)" and
    out: "sign_tx_output S fp (length (zip_inputs psbt)) k psbt_out tx_out
            = Inr (sign_outputs call ! k)"
    by simp_all
  have internal: "\<exists>st. get_simple_type S (Some (length (zip_inputs psbt) - 1)) tx_out
                      (out_redeem_script psbt_out) = Inr st
                \<and> sign_outputs call ! k
                    = BTCOutputInternal kp (nValue tx_out) (script_config_index_map st)"
    if "okp = Some kp" "kp ! (length kp - 2) = 1" for kp
  proof -
    from that assms(5) have "2 \<le> length kp" by simp
    from sign_tx_output_change [OF assms(4) [unfolded that(1)] this that(2) n out]
    show ?thesis .
  qed
  have external: "sign_outputs call ! k =
               (if CTxOut_is_p2pkh S tx_out
                  then BTCOutputExternal P2PKH (take 20 (drop 3 (scriptPubKey tx_out))) (nValue tx_out)
                else if is_p2wpkh S (scriptPubKey tx_out)
                  then BTCOutputExternal P2WPKH (drop 2 (scriptPubKey tx_out)) (nValue tx_out)
                else if CTxOut_is_p2sh S tx_out
                  then BTCOutputExternal P2SH (take 20 (drop 2 (scriptPubKey tx_out))) (nValue tx_out)
                else BTCOutputExternal P2WSH (drop 2 (scriptPubKey tx_out)) (nValue tx_out))"
    if "\<not> (\<exists>kp. okp = Some kp \<and> kp ! (length kp - 2) = 1)"
  proof -
    from that assms(5)
    have "\<forall>kp. okp = Some kp \<longrightarrow> 2 \<le> length kp \<and> kp ! (length kp - 2) \<noteq> 1"
      by auto
    from sign_tx_output_external [OF assms(4) this out] show ?thesis .
  qed
  have iff: "(\<exists>kp v idx. sign_outputs call ! k = BTCOutputInternal kp v idx)
          = (\<exists>kp. okp = Some kp \<and> kp ! (length kp - 2) = 1)"
  proof (cases "\<exists>kp. okp = Some kp \<and> kp ! (length kp - 2) = 1")
    case True
    with internal show ?thesis by blast
  next
    case False
    from external [OF False] have "\<nexists>kp v idx. sign_outputs call ! k = BTCOutputInternal kp v idx"
      by (auto split: if_splits)
    with False show ?thesis by blast
  qed
  from iff internal external show ?thesis by blast
qed


text \<open>
  An output with two associations of the device, the first on a receive path and the
  second on a change path; and an output with one association on a change path.
\<close>

definition example_two_associations :: PSBT where
  "example_two_associations =
     example_psbt [example_input [84 + HARDENED, HARDENED, HARDENED, 0, 0]]
       [\<lparr>out_redeem_script = [],
         out_hd_keypaths =
           [([0x03, 0x22], [example_fp, 84 + HARDENED, HARDENED, HARDENED, 0, 5]),
            ([0x03, 0x33], [example_fp, 84 + HARDENED, HARDENED, HARDENED, 1, 5])]\<rparr>]"

definition example_change_output :: PSBT where
  "example_change_output =
     example_psbt [example_input [84 + HARDENED, HARDENED, HARDENED, 0, 0]]
       [\<lparr>out_redeem_script = [],
         out_hd_keypaths = [([0x03, 0x22], [example_fp, 84 + HARDENED, HARDENED, HARDENED, 1, 7])]\<rparr>]"

lemma example_one_input_request:
  assumes "sign_tx_output example_serializations example_fp 1 0 psbt_out
             \<lparr>nValue = 4000, scriptPubKey = example_p2wpkh\<rparr> = Inr out"
  shows "sign_tx_request example_serializations example_fp False
           (example_psbt [example_input [84 + HARDENED, HARDENED, HARDENED, 0, 0]] [psbt_out]) =
     Inr (\<lparr>sign_coin = BTC,
           script_configs =
             [\<lparr>script_config = SimpleType_P2WPKH,
               config_keypath = [84 + HARDENED, 0 + HARDENED, HARDENED]\<rparr>,
              \<lparr>script_config = SimpleType_P2WPKH_P2SH,
               config_keypath = [49 + HARDENED, 0 + HARDENED, HARDENED]\<rparr>],
           sign_inputs =
             [\<lparr>prev_out_hash = ser_uint256 example_serializations 77, prev_out_index = 0,
               prev_out_value = 5000, in_sequence = 4294967295,
               in_keypath = [84 + HARDENED, HARDENED, HARDENED, 0, 0],
               in_script_config_index = 0,
               prev_tx = prev_tx_of example_serializations example_prevtx\<rparr>],
           sign_outputs = [out],
           sign_locktime = 0, sign_version = 2\<rparr>,
          [[0x02, 0x11]])"
  using assms by (simp add: sign_tx_request_def example_psbt_def example_input_translated)

text \<open>
  C5 as stated fails: the output carries an association of the device, in the account of
  the inputs, whose second-to-last path element is 1, yet it is sent as an external
  output, because only the first matching association is looked at.
\<close>

theorem first_association_counterexample:
  "([0x03, 0x33], [example_fp, 84 + HARDENED, HARDENED, HARDENED, 1, 5])
     \<in> set (out_hd_keypaths (outputs example_two_associations ! 0))
   \<and> map_sum id (\<lambda>(call, found_pubkeys).
         (config_keypath (script_configs call ! 0) ! 2, sign_outputs call))
       (sign_tx_request example_serializations example_fp False example_two_associations)
     = Inr (HARDENED, [BTCOutputExternal P2WPKH (replicate 20 0xAB) 4000])"
proof -
  have "sign_tx_output example_serializations example_fp 1 0
      \<lparr>out_redeem_script = [],
       out_hd_keypaths =
         [([0x03, 0x22], [example_fp, 84 + HARDENED, HARDENED, HARDENED, 0, 5]),
          ([0x03, 0x33], [example_fp, 84 + HARDENED, HARDENED, HARDENED, 1, 5])]\<rparr>
      \<lparr>nValue = 4000, scriptPubKey = example_p2wpkh\<rparr>
    = Inr (BTCOutputExternal P2WPKH (replicate 20 0xAB) 4000)"
    by (simp add: sign_tx_output_def example_predicates example_p2wpkh_def)
  from example_one_input_request [OF this] show ?thesis
    by (simp add: example_two_associations_def example_psbt_def)
qed

theorem output_classification_witness:
  "sign_outputs (fst (projr (sign_tx_request example_serializations example_fp False
       example_change_output))) ! 0
     = BTCOutputInternal [84 + HARDENED, HARDENED, HARDENED, 1, 7] 4000 0"
proof -
  let ?S = example_serializations
  let ?out0 = "\<lparr>out_redeem_script = [],
         out_hd_keypaths = [([0x03, 0x22], [example_fp, 84 + HARDENED, HARDENED, HARDENED, 1, 7])]\<rparr>"
  let ?txout = "\<lparr>nValue = 4000, scriptPubKey = example_p2wpkh\<rparr>"
  let ?kp = "[84 + HARDENED, HARDENED, HARDENED, 1, 7]"
  have gst: "get_simple_type ?S (Some 0) ?txout [] = Inr SimpleType_P2WPKH"
    by (simp add: get_simple_type_def example_predicates example_p2wpkh_def)
  have "sign_tx_output ?S example_fp 1 0 ?out0 ?txout = Inr (BTCOutputInternal ?kp 4000 0)"
    by (simp add: sign_tx_output_def gst)
  from example_one_input_request [OF this] obtain call pks where
    req: "sign_tx_request ?S example_fp False example_change_output = Inr (call, pks)" and
    acc: "config_keypath (script_configs call ! 0) ! 2 = HARDENED"
    by (simp add: example_change_output_def)
  have k: "0 < length (zip_outputs example_change_output)"
    and nth: "zip_outputs example_change_output ! 0 = (?out0, ?txout)"
    and n: "length (zip_inputs example_change_output) - 1 = 0"
    by (simp_all add: example_change_output_def example_psbt_def)
  have fk: "find_our_key example_fp (out_hd_keypaths ?out0) = Inr (Some [0x03, 0x22], Some ?kp)"
    by simp
  have same: "\<forall>kp. Some ?kp = Some kp \<longrightarrow>
           2 < length kp \<and> kp ! 2 = config_keypath (script_configs call ! 0) ! 2"
    by (simp add: acc)
  from output_classification [OF req k nth fk same]
  have "\<forall>kp. Some ?kp = Some kp \<and> kp ! (length kp - 2) = 1 \<longrightarrow>
          (\<exists>st. get_simple_type ?S (Some (length (zip_inputs example_change_output) - 1)) ?txout
                   (out_redeem_script ?out0) = Inr st
             \<and> sign_outputs call ! 0 = BTCOutputInternal kp (nValue ?txout) (script_config_index_map st))"
    by blast
  then have "\<exists>st. get_simple_type ?S (Some 0) ?txout [] = Inr st
             \<and> sign_outputs call ! 0 = BTCOutputInternal ?kp 4000 (script_config_index_map st)"
    unfolding n by simp
  with gst have "sign_outputs call ! 0 = BTCOutputInternal ?kp 4000 0" by auto
  with req show ?thesis by simp
qed


section \<open>Public key export: the policy on mainnet\<close>






end
